theory Spec2Isabelle
  imports Main "HOL-Library.Char_ord" "HOL-Library.List_Lexorder" "HOL-Library.Product_Lexorder"
begin

section \<open>Go strings\<close>

text \<open>
  A Go \<^verbatim>\<open>string\<close> is a sequence of bytes, so it is modelled as \<^typ>\<open>string\<close>
  (a list of 8-bit characters): \<^verbatim>\<open>len(s)\<close> is \<^term>\<open>length s\<close>, \<^verbatim>\<open>s[i:]\<close> is
  \<^term>\<open>drop i s\<close> and \<^verbatim>\<open>s[i:j]\<close> is \<^term>\<open>take (j - i) (drop i s)\<close>. The functions
  of package \<^verbatim>\<open>strings\<close> used by the program are written out below; a search that
  returns \<^verbatim>\<open>-1\<close> in Go returns \<^term>\<open>None\<close> here.
\<close>

definition HasPrefix :: "string \<Rightarrow> string \<Rightarrow> bool" where
  "HasPrefix s p = (take (length p) s = p)"

definition HasSuffix :: "string \<Rightarrow> string \<Rightarrow> bool" where
  "HasSuffix s p = (length p \<le> length s \<and> drop (length s - length p) s = p)"

definition TrimSuffix :: "string \<Rightarrow> string \<Rightarrow> string" where
  "TrimSuffix s p = (if HasSuffix s p then take (length s - length p) s else s)"

fun Index :: "string \<Rightarrow> string \<Rightarrow> nat option" where
  "Index [] sub = (if sub = [] then Some 0 else None)"
| "Index (c # cs) sub =
     (if HasPrefix (c # cs) sub then Some 0 else map_option Suc (Index cs sub))"

fun LastIndex :: "string \<Rightarrow> string \<Rightarrow> nat option" where
  "LastIndex [] sub = (if sub = [] then Some 0 else None)"
| "LastIndex (c # cs) sub =
     (case LastIndex cs sub of
        Some i \<Rightarrow> Some (Suc i)
      | None \<Rightarrow> if HasPrefix (c # cs) sub then Some 0 else None)"

definition Contains :: "string \<Rightarrow> string \<Rightarrow> bool" where
  "Contains s sub = (Index s sub \<noteq> None)"

text \<open>\<^verbatim>\<open>strings.Split(s, "\n")\<close>: one more piece than there are newlines.\<close>

fun Split_nl :: "string \<Rightarrow> string list" where
  "Split_nl [] = [[]]"
| "Split_nl (c # cs) =
     (if c = CHR 0x0A then [] # Split_nl cs
      else (case Split_nl cs of [] \<Rightarrow> [[c]] | l # ls \<Rightarrow> (c # l) # ls))"

text \<open>\<^verbatim>\<open>strings.Join(lines, "\n")\<close>.\<close>

fun Join_nl :: "string list \<Rightarrow> string" where
  "Join_nl [] = []"
| "Join_nl [l] = l"
| "Join_nl (l # ls) = l @ CHR 0x0A # Join_nl ls"

text \<open>
  \<^verbatim>\<open>strings.TrimSpace\<close> removes leading and trailing white space as Unicode defines
  it. On bytes these are the six ASCII characters tab, line feed, vertical tab, form
  feed, carriage return and space, and the UTF-8 encodings of U+0085, U+00A0, U+1680,
  U+2000 to U+200A, U+2028, U+2029, U+202F, U+205F and U+3000. Go decodes forwards
  when trimming on the left and backwards when trimming on the right; an invalid or
  overlong sequence decodes to U+FFFD, which is no white space, so in both directions
  exactly these byte sequences are removed.
\<close>

definition asciiSpace :: "char \<Rightarrow> bool" where
  "asciiSpace c = (c \<in> set [CHR 0x09, CHR 0x0A, CHR 0x0B, CHR 0x0C, CHR 0x0D, CHR 0x20])"

definition unicodeSpaces :: "string list" where
  "unicodeSpaces =
     [[CHR 0xC2, CHR 0x85], [CHR 0xC2, CHR 0xA0], [CHR 0xE1, CHR 0x9A, CHR 0x80]] @
     map (\<lambda>b. [CHR 0xE2, CHR 0x80, b])
       [CHR 0x80, CHR 0x81, CHR 0x82, CHR 0x83, CHR 0x84, CHR 0x85, CHR 0x86, CHR 0x87,
        CHR 0x88, CHR 0x89, CHR 0x8A, CHR 0xA8, CHR 0xA9, CHR 0xAF] @
     [[CHR 0xE2, CHR 0x81, CHR 0x9F], [CHR 0xE3, CHR 0x80, CHR 0x80]]"

text \<open>The number of bytes of the white-space rune that \<open>s\<close> starts with, 0 if none.\<close>

definition spaceWidth :: "string list \<Rightarrow> string \<Rightarrow> nat" where
  "spaceWidth us s =
     (case s of
        [] \<Rightarrow> 0
      | c # _ \<Rightarrow>
          if asciiSpace c then 1
          else (case find (HasPrefix s) us of Some u \<Rightarrow> length u | None \<Rightarrow> 0))"

function trimLeft :: "string list \<Rightarrow> string \<Rightarrow> string" where
  "trimLeft us s = (if spaceWidth us s = 0 then s else trimLeft us (drop (spaceWidth us s) s))"
  by pat_completeness auto
termination
  by (relation "measure (\<lambda>(us, s). length s)") (auto simp: spaceWidth_def split: list.splits)

declare trimLeft.simps [simp del]

definition TrimSpace :: "string \<Rightarrow> string" where
  "TrimSpace s = rev (trimLeft (map rev unicodeSpaces) (rev (trimLeft unicodeSpaces s)))"

text \<open>
  \<^verbatim>\<open>strings.ToLower\<close>, on the ASCII letters. The program only compares its result with
  the ASCII words \<^verbatim>\<open>subject\<close>, \<^verbatim>\<open>from\<close> and \<^verbatim>\<open>date\<close>; the two code points outside
  ASCII that Go lowers to an ASCII letter (U+0130 to \<^verbatim>\<open>i\<close>, U+212A to \<^verbatim>\<open>k\<close>) lower to
  letters that none of these words contains.
\<close>

definition lowerChar :: "char \<Rightarrow> char" where
  "lowerChar c =
     (if CHR ''A'' \<le> c \<and> c \<le> CHR ''Z'' then char_of (of_char c + (32 :: nat)) else c)"

definition ToLower :: "string \<Rightarrow> string" where
  "ToLower s = map lowerChar s"

section \<open>Records of the client\<close>

text \<open>
  \<^verbatim>\<open>MailingList\<close>, \<^verbatim>\<open>Message\<close> and \<^verbatim>\<open>MessageContent\<close> of package \<^verbatim>\<open>marc\<close>; package
  \<^verbatim>\<open>cache\<close> declares structs with the same fields, and the client copies them field by
  field, so one record serves both. A Go map from strings to strings is a partial
  function.
\<close>

record MailingList =
  Name :: string
  Category :: string

record Message =
  ID :: string
  Subject :: string
  Author :: string
  Date :: string
  List :: string

record MessageContent = Message +
  Body :: string
  Headers :: "string \<rightharpoonup> string"

section \<open>The regular expressions\<close>

text \<open>
  The three patterns of \<^verbatim>\<open>client.go\<close>, each written as the matcher it compiles to. In
  Go's syntax \<^verbatim>\<open>\d\<close> is an ASCII digit and \<^verbatim>\<open>\s\<close> is one of tab, line feed, form feed,
  carriage return and space. In each pattern a repeated class is followed by a
  character outside the class, so the greedy match is the only one and no backtracking
  is involved.
\<close>

definition isDigit :: "char \<Rightarrow> bool" where
  "isDigit c = (c \<in> set ''0123456789'')"

definition reSpace :: "char \<Rightarrow> bool" where
  "reSpace c = (c \<in> set [CHR 0x09, CHR 0x0A, CHR 0x0C, CHR 0x0D, CHR 0x20])"

text \<open>\<^verbatim>\<open>\d{4}-\d{2}-\d{2}\<close> at the start of the text.\<close>

fun isoDateAt :: "string \<Rightarrow> bool" where
  "isoDateAt (a # b # c # d # e # f # g # h # i # j # _) =
     (isDigit a \<and> isDigit b \<and> isDigit c \<and> isDigit d \<and> e = CHR ''-'' \<and>
      isDigit f \<and> isDigit g \<and> h = CHR ''-'' \<and> isDigit i \<and> isDigit j)"
| "isoDateAt _ = False"

text \<open>\<^verbatim>\<open>dateRegex.FindString\<close>: the leftmost match, the empty string if there is none.\<close>

fun dateRegex_FindString :: "string \<Rightarrow> string" where
  "dateRegex_FindString [] = []"
| "dateRegex_FindString (c # cs) =
     (if isoDateAt (c # cs) then take 10 (c # cs) else dateRegex_FindString cs)"

text \<open>\<^verbatim>\<open>messageLineRegex.MatchString\<close> for \<^verbatim>\<open>^\s*\d+\.\s+(\d{4}-\d{2}-\d{2})\s+\<close>.\<close>

definition messageLineRegex_MatchString :: "string \<Rightarrow> bool" where
  "messageLineRegex_MatchString line =
     (let s1 = dropWhile reSpace line;
          s2 = dropWhile isDigit s1
      in takeWhile isDigit s1 \<noteq> [] \<and>
         (case s2 of
            [] \<Rightarrow> False
          | dot # s3 \<Rightarrow>
              dot = CHR ''.'' \<and> takeWhile reSpace s3 \<noteq> [] \<and>
              (let s4 = dropWhile reSpace s3
               in isoDateAt s4 \<and>
                  (case drop 10 s4 of [] \<Rightarrow> False | w # _ \<Rightarrow> reSpace w))))"

text \<open>
  \<^verbatim>\<open>messageLinkRegex.FindStringSubmatch\<close> for \<^verbatim>\<open>\?l=([^&]+)&m=(\d+)\<close>: the whole match
  and the two groups of the leftmost match, the empty list (Go's \<^verbatim>\<open>nil\<close>) if there is
  none.
\<close>

definition messageLinkRegex_at :: "string \<Rightarrow> string list" where
  "messageLinkRegex_at s =
     (if HasPrefix s ''?l='' then
        (let r = drop 3 s;
             g1 = takeWhile (\<lambda>c. c \<noteq> CHR ''&'') r;
             r2 = dropWhile (\<lambda>c. c \<noteq> CHR ''&'') r;
             g2 = takeWhile isDigit (drop 3 r2)
         in if g1 \<noteq> [] \<and> HasPrefix r2 ''&m='' \<and> g2 \<noteq> []
            then [''?l='' @ g1 @ ''&m='' @ g2, g1, g2] else [])
      else [])"

fun messageLinkRegex_FindStringSubmatch :: "string \<Rightarrow> string list" where
  "messageLinkRegex_FindStringSubmatch [] = []"
| "messageLinkRegex_FindStringSubmatch (c # cs) =
     (case messageLinkRegex_at (c # cs) of
        [] \<Rightarrow> messageLinkRegex_FindStringSubmatch cs
      | m # ms \<Rightarrow> m # ms)"

section \<open>The listing extractor\<close>

text \<open>
  The body of the loop of \<^verbatim>\<open>parseMessageListFromRaw\<close> for one line: \<^term>\<open>None\<close> is
  a \<^verbatim>\<open>continue\<close>, \<^term>\<open>Some m\<close> is the message appended. The logger is left out: it
  only reads, and its slice \<^verbatim>\<open>subject[:min(30, len(subject))]\<close> is always in range.
\<close>

definition parseLine :: "string \<Rightarrow> string \<Rightarrow> Message option" where
  "parseLine list line =
     (if \<not> messageLineRegex_MatchString line then None
      else let dateMatch = dateRegex_FindString line in
      if dateMatch = [] then None
      else let msgMatch = messageLinkRegex_FindStringSubmatch line in
      if length msgMatch \<noteq> 3 then None
      else let msgID = msgMatch ! 2 in
      (case Index line (''?l='' @ list @ ''&m='' @ msgID) of
         None \<Rightarrow> None
       | Some linkStart \<Rightarrow>
      (case Index (drop linkStart line) ''>'' of
         None \<Rightarrow> None
       | Some gt \<Rightarrow>
      let subjectStart = gt + linkStart + 1 in
      (case Index (drop subjectStart line) ''</a>'' of
         None \<Rightarrow> None
       | Some subjectEnd \<Rightarrow>
      let subject = TrimSpace (take subjectEnd (drop subjectStart line));
          author = (case LastIndex line ''</a>'' of
                      None \<Rightarrow> []
                    | Some lastAnchorEnd \<Rightarrow>
                        if lastAnchorEnd + 4 < length line
                        then TrimSpace (drop (lastAnchorEnd + 4) line) else [])
      in Some \<lparr>ID = msgID, Subject = subject, Author = author, Date = dateMatch,
               List = list\<rparr>))))"

text \<open>The loop over the lines, appending to \<^verbatim>\<open>messages\<close>.\<close>

fun parseLines :: "string \<Rightarrow> string list \<Rightarrow> Message list \<Rightarrow> Message list" where
  "parseLines list [] messages = messages"
| "parseLines list (line # lines) messages =
     (case parseLine list line of
        None \<Rightarrow> parseLines list lines messages
      | Some msg \<Rightarrow> parseLines list lines (messages @ [msg]))"

definition parseMessageListFromRaw :: "string \<Rightarrow> string \<Rightarrow> Message list" where
  "parseMessageListFromRaw raw list = parseLines list (Split_nl raw) []"

section \<open>Documents\<close>

text \<open>
  A parsed document is a tree of \<^verbatim>\<open>html.Node\<close>: the node's type, its \<^verbatim>\<open>Data\<close> (the
  tag name of an element, the text of a text node), its attributes as key and value
  pairs in order, and its children from \<^verbatim>\<open>FirstChild\<close> along \<^verbatim>\<open>NextSibling\<close>. Where
  the program follows \<^verbatim>\<open>n.Parent\<close> the parent is passed along the walk.
\<close>

datatype NodeType =
  ErrorNode | TextNode | DocumentNode | ElementNode | CommentNode | DoctypeNode | RawNode

datatype Node = Node (Type: NodeType) (Data: string) (Attr: "(string \<times> string) list")
  (Children: "Node list")

text \<open>Go's \<^verbatim>\<open>error\<close> values: a message, possibly wrapping another error (\<^verbatim>\<open>%w\<close>).\<close>

datatype error = Err string | Wrap string error

definition getAttr :: "Node \<Rightarrow> string \<Rightarrow> string" where
  "getAttr n key = (case find (\<lambda>attr. fst attr = key) (Attr n) of
                      Some attr \<Rightarrow> snd attr
                    | None \<Rightarrow> [])"

text \<open>\<^verbatim>\<open>extractText\<close>: the text nodes below \<open>n\<close> in document order, trimmed.\<close>

fun extractText_walk :: "Node \<Rightarrow> string \<Rightarrow> string"
  and extractText_children :: "Node list \<Rightarrow> string \<Rightarrow> string" where
  "extractText_walk (Node t d a cs) text =
     extractText_children cs (if t = TextNode then text @ d else text)"
| "extractText_children [] text = text"
| "extractText_children (child # rest) text =
     extractText_children rest (extractText_walk child text)"

definition extractText :: "Node \<Rightarrow> string" where
  "extractText n = TrimSpace (extractText_walk n [])"

text \<open>
  \<^verbatim>\<open>extractListName\<close> is \<^verbatim>\<open>url.Parse(href)\<close> followed by \<^verbatim>\<open>u.Query().Get("l")\<close>, the
  empty string when the URL does not parse. Package \<^verbatim>\<open>net/url\<close> is not part of the
  program: \<open>queryGet href key\<close> stands for the value it finds.
\<close>

definition extractListName :: "(string \<Rightarrow> string \<Rightarrow> string) \<Rightarrow> string \<Rightarrow> string" where
  "extractListName queryGet href = queryGet href ''l''"

section \<open>The catalog extractor\<close>

definition hasGroupImg :: "Node \<Rightarrow> bool" where
  "hasGroupImg b =
     list_ex (\<lambda>c. Type c = ElementNode \<and> Data c = ''img'' \<and>
                   Contains (getAttr c ''alt'') ''Group'') (Children b)"

fun extractCategory_children :: "Node list \<Rightarrow> string" where
  "extractCategory_children [] = []"
| "extractCategory_children (child # rest) =
     (if Type child = ElementNode \<and> Data child = ''b'' \<and> hasGroupImg child
      then TrimSpace (concat (map Data (filter (\<lambda>c. Type c = TextNode) (Children child))))
      else extractCategory_children rest)"

definition extractCategory :: "Node \<Rightarrow> string" where
  "extractCategory dt = extractCategory_children (Children dt)"

text \<open>
  What \<^verbatim>\<open>walk\<close> of \<^verbatim>\<open>ListMailingLists\<close> does at one node, before it descends: the
  closure's variables \<^verbatim>\<open>currentCategory\<close> and \<^verbatim>\<open>lists\<close> are the state.
\<close>

definition visit ::
  "(string \<Rightarrow> string \<Rightarrow> string) \<Rightarrow> Node \<Rightarrow> string \<times> MailingList list \<Rightarrow>
   string \<times> MailingList list" where
  "visit queryGet n st =
     (let currentCategory =
            (if Type n = ElementNode \<and> Data n = ''dt'' \<and> extractCategory n \<noteq> []
             then extractCategory n else fst st);
          lists =
            (if Type n = ElementNode \<and> Data n = ''a'' \<and>
                HasPrefix (getAttr n ''href'') ''?l='' \<and>
                extractListName queryGet (getAttr n ''href'') \<noteq> []
             then snd st @ [\<lparr>Name = extractListName queryGet (getAttr n ''href''),
                              Category = currentCategory\<rparr>]
             else snd st)
      in (currentCategory, lists))"

fun walk :: "(string \<Rightarrow> string \<Rightarrow> string) \<Rightarrow> Node \<Rightarrow> string \<times> MailingList list \<Rightarrow>
             string \<times> MailingList list"
  and walk_children :: "(string \<Rightarrow> string \<Rightarrow> string) \<Rightarrow> Node list \<Rightarrow>
             string \<times> MailingList list \<Rightarrow> string \<times> MailingList list" where
  "walk queryGet (Node t d a cs) st =
     walk_children queryGet cs (visit queryGet (Node t d a cs) st)"
| "walk_children queryGet [] st = st"
| "walk_children queryGet (child # rest) st =
     walk_children queryGet rest (walk queryGet child st)"

text \<open>The lists that \<^verbatim>\<open>ListMailingLists\<close> extracts from a fetched document.\<close>

definition extractMailingLists ::
  "(string \<Rightarrow> string \<Rightarrow> string) \<Rightarrow> Node \<Rightarrow> MailingList list" where
  "extractMailingLists queryGet doc = snd (walk queryGet doc ([], []))"

section \<open>The message extractor\<close>

text \<open>
  \<^verbatim>\<open>walk\<close> of \<^verbatim>\<open>parseMessage\<close>, with the closure's \<^verbatim>\<open>inPre\<close> and \<^verbatim>\<open>preContent\<close> as
  state: text is collected while \<^verbatim>\<open>inPre\<close> holds, and leaving a \<^verbatim>\<open>pre\<close> element clears
  it.
\<close>

fun walkPre :: "Node \<Rightarrow> bool \<times> string \<Rightarrow> bool \<times> string"
  and walkPre_children :: "Node list \<Rightarrow> bool \<times> string \<Rightarrow> bool \<times> string" where
  "walkPre (Node t d a cs) st =
     (let inPre = (if t = ElementNode \<and> d = ''pre'' then True else fst st);
          preContent = (if inPre \<and> t = TextNode then snd st @ d else snd st)
      in if t = ElementNode \<and> d = ''pre''
         then (False, snd (walkPre_children cs (inPre, preContent)))
         else walkPre_children cs (inPre, preContent))"
| "walkPre_children [] st = st"
| "walkPre_children (child # rest) st = walkPre_children rest (walkPre child st)"

text \<open>One header line: the key before the first colon and the value after it.\<close>

definition setHeader :: "string \<Rightarrow> nat \<Rightarrow> MessageContent \<Rightarrow> MessageContent" where
  "setHeader line idx msg =
     (let key = TrimSpace (take idx line);
          val = TrimSpace (drop (idx + 1) line);
          msg1 = msg\<lparr>Headers := (Headers msg)(key \<mapsto> val)\<rparr>
      in if ToLower key = ''subject'' then msg1\<lparr>Subject := val\<rparr>
         else if ToLower key = ''from'' then msg1\<lparr>Author := val\<rparr>
         else if ToLower key = ''date'' then msg1\<lparr>Date := val\<rparr>
         else msg1)"

text \<open>The loop over the lines of the block, with \<^verbatim>\<open>inHeaders\<close> and \<^verbatim>\<open>bodyLines\<close>.\<close>

fun parseBlock ::
  "string list \<Rightarrow> bool \<Rightarrow> MessageContent \<Rightarrow> string list \<Rightarrow> MessageContent \<times> string list" where
  "parseBlock [] inHeaders msg bodyLines = (msg, bodyLines)"
| "parseBlock (line # lines) inHeaders msg bodyLines =
     (if inHeaders then
        (if line = [] then parseBlock lines False msg bodyLines
         else (case Index line '':'' of
                 None \<Rightarrow> parseBlock lines True msg bodyLines
               | Some idx \<Rightarrow>
                   if idx > 0 then parseBlock lines True (setHeader line idx msg) bodyLines
                   else parseBlock lines True msg bodyLines))
      else parseBlock lines False msg (bodyLines @ [line]))"

text \<open>
  \<^verbatim>\<open>parseMessage\<close>. Package \<^verbatim>\<open>html\<close> is not part of the program: \<open>html_Parse\<close> stands for
  \<^verbatim>\<open>html.Parse(strings.NewReader(raw))\<close>, which gives a document or an error.
\<close>

definition parseMessage ::
  "(string \<Rightarrow> error + Node) \<Rightarrow> string \<Rightarrow> string \<Rightarrow> string \<Rightarrow> error + MessageContent" where
  "parseMessage html_Parse raw list messageID =
     (case html_Parse raw of
        Inl err \<Rightarrow> Inl err
      | Inr doc \<Rightarrow>
          (let msg = \<lparr>ID = messageID, Subject = [], Author = [], Date = [], List = list,
                      Body = [], Headers = Map.empty\<rparr>;
               content = snd (walkPre doc (False, []));
               parsed = parseBlock (Split_nl content) True msg []
           in Inr ((fst parsed)\<lparr>Body := TrimSpace (Join_nl (snd parsed))\<rparr>)))"

section \<open>The document-based listing extractor\<close>

text \<open>
  \<^verbatim>\<open>extractMessageMetaSimple\<close> reads the text of the link's parent; \<open>parent\<close> is
  \<^term>\<open>None\<close> for a node without one.
\<close>

definition extractMessageMetaSimple :: "Node option \<Rightarrow> string \<times> string" where
  "extractMessageMetaSimple parent =
     (let lineText = (case parent of None \<Rightarrow> [] | Some p \<Rightarrow> extractText p);
          date = dateRegex_FindString lineText;
          author = (case LastIndex lineText '']'' of
                      None \<Rightarrow> []
                    | Some idx \<Rightarrow>
                        TrimSpace (TrimSuffix (TrimSuffix
                          (TrimSpace (drop (idx + 1) lineText)) ''Next'') ''Last''))
      in (date, author))"

definition visitLink :: "string \<Rightarrow> Node option \<Rightarrow> Node \<Rightarrow> Message list \<Rightarrow> Message list" where
  "visitLink list parent n messages =
     (if Type n = ElementNode \<and> Data n = ''a'' then
        (let matches = messageLinkRegex_FindStringSubmatch (getAttr n ''href'') in
         if length matches = 3 then
           (let subject = TrimSpace (extractText n) in
            if subject \<noteq> [] then
              messages @ [\<lparr>ID = matches ! 2, Subject = subject,
                           Author = snd (extractMessageMetaSimple parent),
                           Date = fst (extractMessageMetaSimple parent), List = list\<rparr>]
            else messages)
         else messages)
      else messages)"

fun parseMessageList_walk :: "string \<Rightarrow> Node option \<Rightarrow> Node \<Rightarrow> Message list \<Rightarrow> Message list"
  and parseMessageList_children ::
    "string \<Rightarrow> Node \<Rightarrow> Node list \<Rightarrow> Message list \<Rightarrow> Message list" where
  "parseMessageList_walk list parent (Node t d a cs) messages =
     parseMessageList_children list (Node t d a cs) cs
       (visitLink list parent (Node t d a cs) messages)"
| "parseMessageList_children list n [] messages = messages"
| "parseMessageList_children list n (child # rest) messages =
     parseMessageList_children list n rest (parseMessageList_walk list (Some n) child messages)"

definition parseMessageList :: "Node \<Rightarrow> string \<Rightarrow> Message list" where
  "parseMessageList doc list = parseMessageList_walk list None doc []"

section \<open>The cache store\<close>

text \<open>
  The three tables of the schema, one record per row with the schema's columns, and
  the full-text index \<^verbatim>\<open>messages_fts\<close> as the entries it holds: the row id and the five
  indexed columns. A table is the list of its rows in the order of their row ids.
  \<^verbatim>\<open>message_content\<close> has the text column \<^verbatim>\<open>id\<close> as its primary key, so its row id is
  the implicit one that SQLite assigns; the index refers to content rows by it
  (\<^verbatim>\<open>content_rowid='rowid'\<close>).
\<close>

record list_row =
  ml_name :: string
  ml_category :: string
  ml_updated_at :: int

record message_row =
  m_id :: string
  m_list :: string
  m_subject :: string
  m_author :: string
  m_date :: string
  m_updated_at :: int

record content_row =
  c_rowid :: nat
  c_id :: string
  c_list :: string
  c_subject :: string
  c_author :: string
  c_date :: string
  c_body :: string
  c_headers :: string
  c_updated_at :: int

record fts_row =
  f_rowid :: nat
  f_id :: string
  f_list :: string
  f_subject :: string
  f_author :: string
  f_body :: string

record database =
  mailing_lists :: "list_row list"
  messages :: "message_row list"
  message_content :: "content_row list"
  messages_fts :: "fts_row list"

text \<open>
  \<^verbatim>\<open>Cache\<close>: the database and the TTL, a \<^verbatim>\<open>time.Duration\<close> in nanoseconds. The clock is
  an argument of every operation: \<open>now\<close> is \<^verbatim>\<open>time.Now()\<close> in nanoseconds since the
  epoch, and \<^verbatim>\<open>Unix()\<close> rounds down to seconds. The store is taken to answer every
  statement; an engine error on a read is a miss in the program.
\<close>

record Cache =
  db :: database
  ttl :: int

definition Unix :: "int \<Rightarrow> int" where
  "Unix t = t div 1000000000"

definition cutoff :: "Cache \<Rightarrow> int \<Rightarrow> int" where
  "cutoff c now = Unix (now - ttl c)"

subsection \<open>The triggers\<close>

definition fts_of :: "content_row \<Rightarrow> fts_row" where
  "fts_of r = \<lparr>f_rowid = c_rowid r, f_id = c_id r, f_list = c_list r,
              f_subject = c_subject r, f_author = c_author r, f_body = c_body r\<rparr>"

text \<open>\<^verbatim>\<open>messages_fts_insert\<close>: after an insert, the new row is added to the index.\<close>

definition messages_fts_insert :: "content_row \<Rightarrow> fts_row list \<Rightarrow> fts_row list" where
  "messages_fts_insert new idx = idx @ [fts_of new]"

text \<open>
  \<^verbatim>\<open>messages_fts_delete\<close>: after a delete, the index's \<^verbatim>\<open>'delete'\<close> command removes the
  entry of the old row.
\<close>

definition messages_fts_delete :: "content_row \<Rightarrow> fts_row list \<Rightarrow> fts_row list" where
  "messages_fts_delete old idx = remove1 (fts_of old) idx"

subsection \<open>The statements\<close>

text \<open>
  \<^verbatim>\<open>INSERT OR REPLACE INTO message_content\<close>. SQLite picks the new row id, one more than
  the largest in the table, then deletes the rows that conflict on the primary key,
  then inserts the row and runs the insert trigger. For the rows that \<^verbatim>\<open>REPLACE\<close>
  deletes, SQLite runs the delete triggers if and only if recursive triggers are
  enabled on the connection (documented under \<^verbatim>\<open>ON CONFLICT\<close>); the setting is off
  unless \<^verbatim>\<open>PRAGMA recursive_triggers\<close> turns it on.
\<close>

definition next_rowid :: "content_row list \<Rightarrow> nat" where
  "next_rowid rows = Suc (fold max (map c_rowid rows) 0)"

definition insert_or_replace_content ::
  "bool \<Rightarrow> (nat \<Rightarrow> content_row) \<Rightarrow> database \<Rightarrow> database" where
  "insert_or_replace_content recursive_triggers mk d =
     (let new = mk (next_rowid (message_content d));
          conflicting = filter (\<lambda>r. c_id r = c_id new) (message_content d);
          kept = filter (\<lambda>r. c_id r \<noteq> c_id new) (message_content d);
          idx = (if recursive_triggers
                 then fold messages_fts_delete conflicting (messages_fts d)
                 else messages_fts d)
      in d\<lparr>message_content := kept @ [new], messages_fts := messages_fts_insert new idx\<rparr>)"

text \<open>\<^verbatim>\<open>DELETE FROM message_content WHERE updated_at < ?\<close>, with the delete trigger.\<close>

definition delete_content_before :: "int \<Rightarrow> database \<Rightarrow> database" where
  "delete_content_before t d =
     d\<lparr>message_content := filter (\<lambda>r. \<not> c_updated_at r < t) (message_content d),
       messages_fts := fold messages_fts_delete
                         (filter (\<lambda>r. c_updated_at r < t) (message_content d)) (messages_fts d)\<rparr>"

definition insert_or_replace_list :: "list_row \<Rightarrow> list_row list \<Rightarrow> list_row list" where
  "insert_or_replace_list new rows = filter (\<lambda>r. ml_name r \<noteq> ml_name new) rows @ [new]"

definition insert_or_replace_message :: "message_row \<Rightarrow> message_row list \<Rightarrow> message_row list" where
  "insert_or_replace_message new rows = filter (\<lambda>r. m_id r \<noteq> m_id new) rows @ [new]"

subsection \<open>Mailing lists\<close>

definition GetMailingLists :: "Cache \<Rightarrow> int \<Rightarrow> MailingList list \<times> bool" where
  "GetMailingLists c now =
     (let rows = sort_key (\<lambda>r. (ml_category r, ml_name r))
                   (filter (\<lambda>r. ml_updated_at r > cutoff c now) (mailing_lists (db c)));
          lists = map (\<lambda>r. \<lparr>Name = ml_name r, Category = ml_category r\<rparr>) rows
      in if length lists = 0 then ([], False) else (lists, True))"

definition SetMailingLists :: "Cache \<Rightarrow> int \<Rightarrow> MailingList list \<Rightarrow> Cache" where
  "SetMailingLists c now ls =
     c\<lparr>db := (db c)\<lparr>mailing_lists :=
        fold (\<lambda>l. insert_or_replace_list
                    \<lparr>ml_name = Name l, ml_category = Category l, ml_updated_at = Unix now\<rparr>)
          ls (mailing_lists (db c))\<rparr>\<rparr>"

subsection \<open>Message listings\<close>

text \<open>
  A failed slice expression panics in Go. \<^verbatim>\<open>GetMessages\<close> slices \<^verbatim>\<open>month[:4]\<close> and
  \<^verbatim>\<open>month[4:]\<close>, both of which need four bytes.
\<close>

datatype panic = SliceBoundsOutOfRange

text \<open>
  \<^verbatim>\<open>ORDER BY date DESC\<close> under the binary collation: bytes in descending order. SQL
  leaves the order of rows with equal dates open; here they keep the table's order.
\<close>

fun insert_desc :: "message_row \<Rightarrow> message_row list \<Rightarrow> message_row list" where
  "insert_desc x [] = [x]"
| "insert_desc x (y # ys) = (if m_date x < m_date y then y # insert_desc x ys else x # y # ys)"

definition order_by_date_desc :: "message_row list \<Rightarrow> message_row list" where
  "order_by_date_desc rows = foldr insert_desc rows []"

text \<open>
  \<open>like pattern text\<close> stands for SQLite's \<^verbatim>\<open>text LIKE pattern\<close>, an operator of the
  engine.
\<close>

definition GetMessages ::
  "(string \<Rightarrow> string \<Rightarrow> bool) \<Rightarrow> Cache \<Rightarrow> int \<Rightarrow> string \<Rightarrow> string \<Rightarrow>
   panic + Message list \<times> bool" where
  "GetMessages like c now list month =
     (if month \<noteq> [] \<and> length month < 4 then Inl SliceBoundsOutOfRange
      else
        (let live = filter (\<lambda>r. m_list r = list \<and> m_updated_at r > cutoff c now)
                      (messages (db c));
             rows = order_by_date_desc
                      (if month \<noteq> []
                       then filter (\<lambda>r. like (take 4 month @ ''-'' @ drop 4 month @ ''%'')
                                           (m_date r)) live
                       else live);
             msgs = map (\<lambda>r. \<lparr>ID = m_id r, Subject = m_subject r, Author = m_author r,
                               Date = m_date r, List = m_list r\<rparr>) rows
         in if length msgs = 0 then Inr ([], False) else Inr (msgs, True)))"

definition SetMessages :: "Cache \<Rightarrow> int \<Rightarrow> Message list \<Rightarrow> Cache" where
  "SetMessages c now msgs =
     (if length msgs = 0 then c
      else c\<lparr>db := (db c)\<lparr>messages :=
        fold (\<lambda>m. insert_or_replace_message
                    \<lparr>m_id = ID m, m_list = List m, m_subject = Subject m, m_author = Author m,
                     m_date = Date m, m_updated_at = Unix now\<rparr>)
          msgs (messages (db c))\<rparr>\<rparr>)"

subsection \<open>Message contents\<close>

text \<open>
  Package \<^verbatim>\<open>encoding/json\<close> is not part of the program: \<open>json_Marshal\<close> and
  \<open>json_Unmarshal\<close> stand for \<^verbatim>\<open>json.Marshal\<close> of a header map and \<^verbatim>\<open>json.Unmarshal\<close>
  into one. The \<^verbatim>\<open>headers\<close> column holds the text that \<open>json_Marshal\<close> gave.

  \<^verbatim>\<open>QueryRow\<close> takes the first row of the result; \<^verbatim>\<open>Scan\<close> fails when there is none.
\<close>

definition GetMessageContent ::
  "(string \<Rightarrow> error + (string \<rightharpoonup> string)) \<Rightarrow> Cache \<Rightarrow> int \<Rightarrow> string \<Rightarrow> string \<Rightarrow>
   MessageContent option \<times> bool" where
  "GetMessageContent json_Unmarshal c now list msgid =
     (case find (\<lambda>r. c_id r = msgid \<and> c_list r = list \<and> c_updated_at r > cutoff c now)
             (message_content (db c)) of
        None \<Rightarrow> (None, False)
      | Some r \<Rightarrow>
          (case json_Unmarshal (c_headers r) of
             Inl err \<Rightarrow> (None, False)
           | Inr headers \<Rightarrow>
               (Some \<lparr>ID = c_id r, Subject = c_subject r, Author = c_author r,
                      Date = c_date r, List = c_list r, Body = c_body r,
                      Headers = headers\<rparr>, True)))"

text \<open>
  \<^verbatim>\<open>SetMessageContent\<close> returns the error, if any, and leaves the cache as the
  statement left it. \<^verbatim>\<open>New\<close> opens the connection and issues \<^verbatim>\<open>PRAGMA journal_mode=WAL\<close>
  and the schema, nothing else, so recursive triggers are off when the statement runs.
\<close>

definition SetMessageContent ::
  "((string \<rightharpoonup> string) \<Rightarrow> error + string) \<Rightarrow> Cache \<Rightarrow> int \<Rightarrow> MessageContent \<Rightarrow>
   error option \<times> Cache" where
  "SetMessageContent json_Marshal c now m =
     (case json_Marshal (Headers m) of
        Inl err \<Rightarrow> (Some err, c)
      | Inr headersJSON \<Rightarrow>
          (None, c\<lparr>db := insert_or_replace_content False
                     (\<lambda>rowid. \<lparr>c_rowid = rowid, c_id = ID m, c_list = List m,
                                c_subject = Subject m, c_author = Author m, c_date = Date m,
                                c_body = Body m, c_headers = headersJSON,
                                c_updated_at = Unix now\<rparr>) (db c)\<rparr>))"

subsection \<open>Search and cleanup\<close>

text \<open>
  The full-text engine is not part of the program: \<open>fts5 query idx\<close> stands for
  \<^verbatim>\<open>messages_fts MATCH query\<close> over the index \<open>idx\<close>. It gives an error (a query that
  the engine does not accept) or the row ids that match, each once, with the value of
  the engine's \<^verbatim>\<open>rank\<close> column. The statement joins the hits with \<^verbatim>\<open>message_content\<close> on
  the row id, keeps the rows of the list when one is given, orders by rank and keeps
  the first 100. SQL leaves the order of rows of equal rank open; here they keep the
  order of the join.
\<close>

definition search_rows ::
  "(nat \<times> 'r) list \<Rightarrow> content_row list \<Rightarrow> string \<Rightarrow> ('r :: linorder \<times> content_row) list" where
  "search_rows hits content list =
     take 100 (sort_key fst
       (concat (map (\<lambda>hit. map (\<lambda>mc. (snd hit, mc))
                  (filter (\<lambda>mc. c_rowid mc = fst hit \<and> (list = [] \<or> c_list mc = list)) content))
          hits)))"

text \<open>\<^verbatim>\<open>rows.Scan\<close> of the five selected columns of a content row.\<close>

definition scanMessage :: "content_row \<Rightarrow> Message" where
  "scanMessage mc = \<lparr>ID = c_id mc, Subject = c_subject mc, Author = c_author mc,
                      Date = c_date mc, List = c_list mc\<rparr>"

definition SearchMessages ::
  "(string \<Rightarrow> fts_row list \<Rightarrow> error + (nat \<times> 'r :: linorder) list) \<Rightarrow> Cache \<Rightarrow> string \<Rightarrow>
   string \<Rightarrow> error + Message list" where
  "SearchMessages fts5 c query list =
     (case fts5 query (messages_fts (db c)) of
        Inl err \<Rightarrow> Inl (Wrap ''search failed'' err)
      | Inr hits \<Rightarrow>
          Inr (map (\<lambda>row. scanMessage (snd row))
                 (search_rows hits (message_content (db c)) list)))"

definition Cleanup :: "Cache \<Rightarrow> int \<Rightarrow> Cache" where
  "Cleanup c now =
     c\<lparr>db := delete_content_before (cutoff c now)
        ((db c)\<lparr>mailing_lists :=
                   filter (\<lambda>r. \<not> ml_updated_at r < cutoff c now) (mailing_lists (db c)),
                 messages :=
                   filter (\<lambda>r. \<not> m_updated_at r < cutoff c now) (messages (db c))\<rparr>)\<rparr>"

section \<open>The client's search\<close>

text \<open>
  \<^verbatim>\<open>url.QueryEscape\<close>: letters, digits and \<^verbatim>\<open>-_.~\<close> stay, a space becomes \<^verbatim>\<open>+\<close>, every
  other byte becomes \<^verbatim>\<open>%\<close> and two upper-case hexadecimal digits.
\<close>

definition hexDigit :: "nat \<Rightarrow> char" where
  "hexDigit n = ''0123456789ABCDEF'' ! n"

definition escapeByte :: "char \<Rightarrow> string" where
  "escapeByte c =
     (if (CHR ''a'' \<le> c \<and> c \<le> CHR ''z'') \<or> (CHR ''A'' \<le> c \<and> c \<le> CHR ''Z'') \<or>
         (CHR ''0'' \<le> c \<and> c \<le> CHR ''9'') \<or> c \<in> set ''-_.~'' then [c]
      else if c = CHR '' '' then ''+''
      else [CHR ''%'', hexDigit (of_char c div 16), hexDigit (of_char c mod 16)])"

definition QueryEscape :: "string \<Rightarrow> string" where
  "QueryEscape s = concat (map escapeByte s)"

text \<open>
  \<^verbatim>\<open>Client\<close>: its cache, and the URLs it has requested so far, which is the trace of
  its HTTP client. \<open>upstream url\<close> stands for the archive: what \<^verbatim>\<open>http.Get\<close>, the
  status check and \<^verbatim>\<open>html.Parse\<close> give for a URL.
\<close>

record Client =
  cache :: Cache
  requested :: "string list"

definition baseURL :: string where
  "baseURL = ''https://marc.info/''"

definition fetch ::
  "(string \<Rightarrow> error + Node) \<Rightarrow> Client \<Rightarrow> string \<Rightarrow> (error + Node) \<times> Client" where
  "fetch upstream c path =
     (upstream (baseURL @ path), c\<lparr>requested := requested c @ [baseURL @ path]\<rparr>)"

definition Search ::
  "(string \<Rightarrow> error + Node) \<Rightarrow> Client \<Rightarrow> string \<Rightarrow> string \<Rightarrow> string \<Rightarrow>
   (error + Message list) \<times> Client" where
  "Search upstream c list query searchType =
     (let searchType1 = (if searchType = [] then ''s'' else searchType);
          path = ''?l='' @ QueryEscape list @ ''&s='' @ QueryEscape query @
                 ''&q='' @ QueryEscape searchType1 @ ''&w=2'';
          fetched = fetch upstream c path
      in (case fst fetched of
            Inl err \<Rightarrow> (Inl err, snd fetched)
          | Inr doc \<Rightarrow> (Inr (parseMessageList doc list), snd fetched)))"

section \<open>The default month\<close>

text \<open>
  \<^verbatim>\<open>ListMessagesWithOptions\<close> replaces an empty month by
  \<^verbatim>\<open>time.Now().Format("200601")\<close>: the year in decimal, padded with zeros to at least
  four digits, then the month padded to two.
\<close>

definition digitChar :: "nat \<Rightarrow> char" where
  "digitChar d = ''0123456789'' ! d"

function decimal :: "nat \<Rightarrow> string" where
  "decimal n = (if n < 10 then [digitChar n] else decimal (n div 10) @ [digitChar (n mod 10)])"
  by pat_completeness auto
termination
  by (relation "measure id") auto

declare decimal.simps [simp del]

definition appendInt :: "nat \<Rightarrow> nat \<Rightarrow> string" where
  "appendInt x width = replicate (width - length (decimal x)) (CHR ''0'') @ decimal x"

definition Format_200601 :: "nat \<Rightarrow> nat \<Rightarrow> string" where
  "Format_200601 year month = appendInt year 4 @ appendInt month 2"

section \<open>The notions of the specification\<close>

text \<open>
  The invariant of the search index as the specification states it: the entries of
  the index are the indexed columns of the content rows, no row without its entry and
  no entry without its row.
\<close>

definition index_in_sync :: "database \<Rightarrow> bool" where
  "index_in_sync d = (set (messages_fts d) = set (map fts_of (message_content d)))"

text \<open>Whether a \<^verbatim>\<open>pre\<close> element occurs in the document.\<close>

fun hasPre :: "Node \<Rightarrow> bool"
  and hasPre_children :: "Node list \<Rightarrow> bool" where
  "hasPre (Node t d a cs) = ((t = ElementNode \<and> d = ''pre'') \<or> hasPre_children cs)"
| "hasPre_children [] = False"
| "hasPre_children (child # rest) = (hasPre child \<or> hasPre_children rest)"

text \<open>
  Steps 2 and 3 of the listing extractor as the specification words them. The line has
  a message link \<^verbatim>\<open>?l=L&m=N\<close>; the link of the caller's list to that message, \<^verbatim>\<open>?l=\<close> then
  the list then \<^verbatim>\<open>&m=N\<close>, occurs in the line; from there on a \<^verbatim>\<open>>\<close> ends the opening tag,
  and after it comes a close-tag.
\<close>

definition hasMessageLink :: "string \<Rightarrow> string \<Rightarrow> bool" where
  "hasMessageLink list line =
     (let m = messageLinkRegex_FindStringSubmatch line in
      length m = 3 \<and>
      (case Index line (''?l='' @ list @ ''&m='' @ m ! 2) of
         None \<Rightarrow> False
       | Some i \<Rightarrow>
           (case Index (drop i line) ''>'' of
              None \<Rightarrow> False
            | Some j \<Rightarrow> Index (drop (j + i + 1) line) ''</a>'' \<noteq> None)))"

text \<open>
  Step 4 as the specification words it: the text after the last close-tag, the
  pagination labels stripped, trimmed.
\<close>

definition authorBySpec :: "string \<Rightarrow> string" where
  "authorBySpec line =
     (case LastIndex line ''</a>'' of
        None \<Rightarrow> []
      | Some k \<Rightarrow>
          TrimSpace (TrimSuffix (TrimSuffix (TrimSpace (drop (k + 4) line)) ''Next'') ''Last''))"

text \<open>The nodes of a document in document order.\<close>

fun preorder :: "Node \<Rightarrow> Node list"
  and preorder_children :: "Node list \<Rightarrow> Node list" where
  "preorder (Node t d a cs) = Node t d a cs # preorder_children cs"
| "preorder_children [] = []"
| "preorder_children (child # rest) = preorder child @ preorder_children rest"

text \<open>
  The catalog as the specification words it. A group marker is an image whose
  alternative text contains \<^verbatim>\<open>Group\<close>; a category header is a \<^verbatim>\<open>dt\<close> element with a bold
  child that contains a group marker; the header's text is the text that follows the
  marker inside that bold element, at any depth, trimmed.
\<close>

definition isGroupImg :: "Node \<Rightarrow> bool" where
  "isGroupImg c =
     (Type c = ElementNode \<and> Data c = ''img'' \<and> Contains (getAttr c ''alt'') ''Group'')"

definition isBoldGroup :: "Node \<Rightarrow> bool" where
  "isBoldGroup b = (Type b = ElementNode \<and> Data b = ''b'' \<and> list_ex isGroupImg (Children b))"

definition isGroupHeader :: "Node \<Rightarrow> bool" where
  "isGroupHeader n =
     (Type n = ElementNode \<and> Data n = ''dt'' \<and> list_ex isBoldGroup (Children n))"

definition nodeText :: "Node \<Rightarrow> string" where
  "nodeText n = concat (map Data (filter (\<lambda>m. Type m = TextNode) (preorder n)))"

definition afterMarker :: "Node \<Rightarrow> Node list" where
  "afterMarker b = tl (dropWhile (\<lambda>c. \<not> isGroupImg c) (Children b))"

definition trailingText :: "Node \<Rightarrow> string" where
  "trailingText n =
     (case find isBoldGroup (Children n) of
        None \<Rightarrow> []
      | Some b \<Rightarrow> TrimSpace (concat (map nodeText (afterMarker b))))"

text \<open>
  A list-selection link is an anchor whose target starts with \<^verbatim>\<open>?l=\<close> and names a list
  in its query parameter \<^verbatim>\<open>l\<close>. The category of a link is the text of the nearest header
  among the nodes before it, empty if there is none; the catalog has one record for each
  link, in document order. Which nodes count as headers is a parameter: every category
  header, or only those with a name.
\<close>

definition isListLink :: "(string \<Rightarrow> string \<Rightarrow> string) \<Rightarrow> Node \<Rightarrow> bool" where
  "isListLink queryGet n =
     (Type n = ElementNode \<and> Data n = ''a'' \<and> HasPrefix (getAttr n ''href'') ''?l='' \<and>
      extractListName queryGet (getAttr n ''href'') \<noteq> [])"

definition categoryBefore :: "(Node \<Rightarrow> bool) \<Rightarrow> Node list \<Rightarrow> string" where
  "categoryBefore header ns =
     (case filter header (rev ns) of [] \<Rightarrow> [] | h # _ \<Rightarrow> trailingText h)"

definition catalogBySpec ::
  "(Node \<Rightarrow> bool) \<Rightarrow> (string \<Rightarrow> string \<Rightarrow> string) \<Rightarrow> Node list \<Rightarrow> MailingList list" where
  "catalogBySpec header queryGet ns =
     map (\<lambda>i. \<lparr>Name = extractListName queryGet (getAttr (ns ! i) ''href''),
                Category = categoryBefore header (take i ns)\<rparr>)
       (filter (\<lambda>i. isListLink queryGet (ns ! i)) [0..<length ns])"

definition isNamedHeader :: "Node \<Rightarrow> bool" where
  "isNamedHeader n = (isGroupHeader n \<and> trailingText n \<noteq> [])"

text \<open>
  A header is plainly written when no text stands before the marker in its bold element
  and the text after the marker is direct text of the bold element, none of it inside a
  nested element.
\<close>

definition hasPlainName :: "Node \<Rightarrow> bool" where
  "hasPlainName n =
     (case find isBoldGroup (Children n) of
        None \<Rightarrow> True
      | Some b \<Rightarrow>
          list_all (\<lambda>c. Type c \<noteq> TextNode) (takeWhile (\<lambda>c. \<not> isGroupImg c) (Children b)) \<and>
          list_all (\<lambda>c. nodeText c = (if Type c = TextNode then Data c else []))
            (afterMarker b))"

definition plainHeaders :: "Node list \<Rightarrow> bool" where
  "plainHeaders ns = list_all (\<lambda>n. \<not> isGroupHeader n \<or> hasPlainName n) ns"

section \<open>Inputs of the examples\<close>

text \<open>A cache with no rows, and a \<^verbatim>\<open>LIKE\<close> that every text passes.\<close>

definition emptyCache :: "int \<Rightarrow> Cache" where
  "emptyCache t = \<lparr>db = \<lparr>mailing_lists = [], messages = [], message_content = [],
                          messages_fts = []\<rparr>, ttl = t\<rparr>"

definition anyLike :: "string \<Rightarrow> string \<Rightarrow> bool" where
  "anyLike pattern text = True"

text \<open>\<^verbatim>\<open>time.Second\<close>, in nanoseconds.\<close>

definition Second :: int where
  "Second = 1000000000"

text \<open>
  A header map with a mixed-case key and the text that \<^verbatim>\<open>json.Marshal\<close> gives for it;
  the two functions stand in for the codec on this map.
\<close>

definition exampleHeaders :: "string \<rightharpoonup> string" where
  "exampleHeaders = [''X-Custom'' \<mapsto> ''value'']"

definition exampleJSON :: string where
  \<open>exampleJSON = ''{"X-Custom":"value"}''\<close>

definition exampleMarshal :: "(string \<rightharpoonup> string) \<Rightarrow> error + string" where
  "exampleMarshal h = Inr exampleJSON"

definition exampleUnmarshal :: "string \<Rightarrow> error + (string \<rightharpoonup> string)" where
  "exampleUnmarshal s = (if s = exampleJSON then Inr exampleHeaders else Inl (Err ''invalid''))"

text \<open>The two writes of the cache's test of updating existing content.\<close>

definition initialContent :: MessageContent where
  "initialContent = \<lparr>ID = ''999'', Subject = ''Initial'', Author = [], Date = [],
                      List = ''test'', Body = ''Initial body'', Headers = exampleHeaders\<rparr>"

definition updatedContent :: MessageContent where
  "updatedContent = \<lparr>ID = ''999'', Subject = ''Updated'', Author = [], Date = [],
                      List = ''test'', Body = ''Updated body'', Headers = exampleHeaders\<rparr>"

definition storedOnce :: Cache where
  "storedOnce =
     snd (SetMessageContent exampleMarshal (emptyCache (50 * Second)) (100 * Second)
            updatedContent)"

definition storedTwice :: Cache where
  "storedTwice =
     snd (SetMessageContent exampleMarshal
            (snd (SetMessageContent exampleMarshal (emptyCache (50 * Second)) (100 * Second)
                    initialContent))
            (120 * Second) updatedContent)"

text \<open>
  The cache after the two writes, a cleanup once they have expired, and the write of
  another message.
\<close>

definition otherContent :: MessageContent where
  "otherContent = \<lparr>ID = ''7'', Subject = ''Other'', Author = [], Date = [],
                    List = ''test'', Body = ''Other body'', Headers = exampleHeaders\<rparr>"

definition storedAgain :: Cache where
  "storedAgain =
     snd (SetMessageContent exampleMarshal (Cleanup storedTwice (200 * Second)) (210 * Second)
            otherContent)"

text \<open>
  A stand-in for the full-text engine: it rejects the empty query, matches a query that
  occurs in the subject or the body, and ranks later rows first.
\<close>

definition exampleFts5 :: "string \<Rightarrow> fts_row list \<Rightarrow> error + (nat \<times> int) list" where
  "exampleFts5 query idx =
     (if query = [] then Inl (Err ''fts5: syntax error'')
      else Inr (map (\<lambda>e. (f_rowid e, - int (f_rowid e)))
                 (filter (\<lambda>e. Contains (f_subject e) query \<or> Contains (f_body e) query) idx)))"

text \<open>
  The document that the parser builds for the text \<^verbatim>\<open>hello\<close>: no block, the text in the
  body.
\<close>

definition docHello :: Node where
  "docHello =
     Node DocumentNode [] []
       [Node ElementNode ''html'' []
          [Node ElementNode ''head'' [] [],
           Node ElementNode ''body'' [] [Node TextNode ''hello'' [] []]]]"

definition parseHello :: "string \<Rightarrow> error + Node" where
  "parseHello raw = Inr docHello"

text \<open>
  An archive that answers one search URL with a page of one result, and a client with
  an empty cache.
\<close>

definition searchPage :: Node where
  \<open>searchPage =
     Node DocumentNode [] []
       [Node ElementNode ''pre'' []
          [Node TextNode ''  1. 2026-02-24  [1] '' [] [],
           Node ElementNode ''a'' [(''href'', ''?l=git&m=42&w=2'')]
             [Node TextNode ''Fix bug'' [] []],
           Node TextNode '' '' [] [],
           Node ElementNode ''a'' [(''href'', ''?l=git&w=2'')] [Node TextNode ''git'' [] []],
           Node TextNode ''  Alice'' [] []]]\<close>

definition archive :: "string \<Rightarrow> error + Node" where
  "archive url = (if url = ''https://marc.info/?l=git&s=Fix&q=s&w=2'' then Inr searchPage
                  else Inl (Err ''unexpected status: 404''))"

definition freshClient :: Client where
  "freshClient = \<lparr>cache = emptyCache (86400 * Second), requested = []\<rparr>"

text \<open>
  The row of the specification's scenario, the same row followed by a pagination label,
  and a page with that row and a second row that has no link.
\<close>

definition listingRow :: string where
  \<open>listingRow = ''   1. 2026-02-24  [1] <a href="?l=git&m=42">Fix bug</a> <a href="?l=git&w=2">git</a>  Alice''\<close>

definition listingRowNext :: string where
  "listingRowNext = listingRow @ '' Next''"

definition listingPage :: string where
  "listingPage = ''<pre>'' @ [CHR 0x0A] @ listingRow @ [CHR 0x0A] @
                 ''   2. 2026-02-23  [1] (no link)  Bob'' @ [CHR 0x0A] @ ''</pre>''"

text \<open>
  A stand-in for the URL parser on targets without escapes, and an index page: a link
  before any header, two groups, a \<^verbatim>\<open>dt\<close> that is no group, a link without a list name
  and a link to another page.
\<close>

definition plainQueryGet :: "string \<Rightarrow> string \<Rightarrow> string" where
  "plainQueryGet href key =
     (if HasPrefix href (''?'' @ key @ ''='')
      then takeWhile (\<lambda>c. c \<noteq> CHR ''&'') (drop (length key + 2) href) else [])"

definition groupHeader :: "string \<Rightarrow> Node" where
  "groupHeader name =
     Node ElementNode ''dt'' []
       [Node ElementNode ''b'' []
          [Node ElementNode ''img'' [(''alt'', ''Group: '')] [], Node TextNode name [] []]]"

definition listLink :: "string \<Rightarrow> Node" where
  "listLink href = Node ElementNode ''a'' [(''href'', href)] [Node TextNode ''list'' [] []]"

definition indexPage :: Node where
  "indexPage =
     Node DocumentNode [] []
       [Node ElementNode ''dl'' []
          [listLink ''?l=early'',
           groupHeader '' Development'',
           Node ElementNode ''dd'' [] [listLink ''?l=git'', listLink ''?l='', listLink ''about.html''],
           Node ElementNode ''dt'' [] [Node ElementNode ''b'' [] [Node TextNode ''Not a group'' [] []]],
           listLink ''?l=hg&r=1'',
           groupHeader '' Linux  '',
           Node ElementNode ''dd'' [] [listLink ''?l=linux-kernel'']]]"

text \<open>
  A cache of 102 stored messages, rows 1 to 102 with their index entries, the even rows
  on the list \<^verbatim>\<open>git\<close> and the odd ones on \<^verbatim>\<open>test\<close>; the hits of the stand-in engine for a
  word of every subject, ranked with later rows first; and the stub of a row.
\<close>

definition numberedRow :: "nat \<Rightarrow> content_row" where
  "numberedRow i = \<lparr>c_rowid = i, c_id = decimal i,
      c_list = (if even i then ''git'' else ''test''), c_subject = ''Fix'', c_author = [],
      c_date = [], c_body = [], c_headers = exampleJSON, c_updated_at = 100\<rparr>"

definition numberedEntry :: "nat \<Rightarrow> fts_row" where
  "numberedEntry i = fts_of (numberedRow i)"

definition manyCache :: Cache where
  "manyCache = \<lparr>db = \<lparr>mailing_lists = [], messages = [],
                        message_content = map numberedRow [1..<103],
                        messages_fts = map numberedEntry [1..<103]\<rparr>,
                 ttl = 50 * Second\<rparr>"

definition rankedLast :: "nat \<Rightarrow> nat \<times> int" where
  "rankedLast i = (i, - int i)"

definition manyHits :: "(nat \<times> int) list" where
  "manyHits = map rankedLast [1..<103]"

definition stub :: "nat \<Rightarrow> Message" where
  "stub i = \<lparr>ID = decimal i, Subject = ''Fix'', Author = [], Date = [],
             List = (if even i then ''git'' else ''test'')\<rparr>"

text \<open>
  A category header with no name after its marker, a catalog page where it stands
  between two links, and a header with text on both sides of its marker.
\<close>

definition blankHeader :: Node where
  "blankHeader =
     Node ElementNode ''dt'' []
       [Node ElementNode ''b'' [] [Node ElementNode ''img'' [(''alt'', ''Group: '')] []]]"

definition blankHeaderPage :: Node where
  "blankHeaderPage =
     Node DocumentNode [] []
       [Node ElementNode ''dl'' []
          [groupHeader '' Development'', listLink ''?l=git'', blankHeader, listLink ''?l=orphan'']]"

definition leadingTextHeader :: Node where
  "leadingTextHeader =
     Node ElementNode ''dt'' []
       [Node ElementNode ''b'' []
          [Node TextNode ''x '' [] [], Node ElementNode ''img'' [(''alt'', ''Group: '')] [],
           Node TextNode '' B'' [] []]]"

section \<open>Properties\<close>

subsection \<open>The listing query and the month\<close>

lemma length_decimal_10: "n < 10 \<Longrightarrow> length (decimal n) = 1"
  by (subst decimal.simps) simp

lemma length_decimal_100: "n < 100 \<Longrightarrow> length (decimal n) \<le> 2"
  by (subst decimal.simps) (use length_decimal_10 [of "n div 10"] in simp)

lemma length_decimal_1000: "n < 1000 \<Longrightarrow> length (decimal n) \<le> 3"
  by (subst decimal.simps) (use length_decimal_100 [of "n div 10"] in simp)

lemma length_decimal_10000: "n < 10000 \<Longrightarrow> length (decimal n) \<le> 4"
  by (subst decimal.simps) (use length_decimal_1000 [of "n div 10"] in simp)

lemma length_appendInt: "length (appendInt x w) = max w (length (decimal x))"
  by (simp add: appendInt_def)

lemma length_Format_200601:
  "year < 10000 \<Longrightarrow> month < 100 \<Longrightarrow> length (Format_200601 year month) = 6"
  using length_decimal_10000 [of year] length_decimal_100 [of month]
  by (simp add: Format_200601_def length_appendInt)

lemma length_Format_200601_ge: "4 \<le> length (Format_200601 year month)"
  by (simp add: Format_200601_def length_appendInt)

lemma GetMessages_returns:
  assumes "\<not> (month \<noteq> [] \<and> length month < 4)"
  shows "\<exists>r. GetMessages like c now list month = Inr r"
proof -
  have "GetMessages like c now list month =
          (let live = filter (\<lambda>r. m_list r = list \<and> m_updated_at r > cutoff c now)
                        (messages (db c));
               rows = order_by_date_desc
                        (if month \<noteq> []
                         then filter (\<lambda>r. like (take 4 month @ ''-'' @ drop 4 month @ ''%'')
                                             (m_date r)) live
                         else live);
               msgs = map (\<lambda>r. \<lparr>ID = m_id r, Subject = m_subject r, Author = m_author r,
                                 Date = m_date r, List = m_list r\<rparr>) rows
           in if length msgs = 0 then Inr ([], False) else Inr (msgs, True))"
    using assms unfolding GetMessages_def by (simp only: if_False)
  then show ?thesis
    unfolding Let_def by (metis (full_types))
qed

text \<open>
  C10. \<^verbatim>\<open>GetMessages(list, month)\<close> panics with a slice bound out of range when
  \<open>month\<close> is not empty and shorter than four bytes, whatever the store holds; it
  returns (a hit or a miss) when \<open>month\<close> is empty or has at least four bytes. The
  month that the client puts in for an empty one never panics, and it has six
  characters while the year has four digits.
\<close>

theorem GetMessages_short_month_panics:
  "(month \<noteq> [] \<and> length month < 4 \<longrightarrow>
      GetMessages like c now list month = Inl SliceBoundsOutOfRange) \<and>
   (month = [] \<or> 4 \<le> length month \<longrightarrow>
      (\<exists>r. GetMessages like c now list month = Inr r)) \<and>
   (\<exists>r. GetMessages like c now list (Format_200601 year mon) = Inr r) \<and>
   (year < 10000 \<and> mon < 100 \<longrightarrow> length (Format_200601 year mon) = 6)"
proof (intro conjI impI)
  assume "month \<noteq> [] \<and> length month < 4"
  then show "GetMessages like c now list month = Inl SliceBoundsOutOfRange"
    by (simp add: GetMessages_def)
next
  assume "month = [] \<or> 4 \<le> length month"
  then have "\<not> (month \<noteq> [] \<and> length month < 4)" by auto
  then show "\<exists>r. GetMessages like c now list month = Inr r"
    by (rule GetMessages_returns)
next
  have "\<not> (Format_200601 year mon \<noteq> [] \<and> length (Format_200601 year mon) < 4)"
    using length_Format_200601_ge [of year mon] by simp
  then show "\<exists>r. GetMessages like c now list (Format_200601 year mon) = Inr r"
    by (rule GetMessages_returns)
next
  assume "year < 10000 \<and> mon < 100"
  then show "length (Format_200601 year mon) = 6"
    by (simp add: length_Format_200601)
qed

theorem GetMessages_short_month_panics_witness:
  "GetMessages anyLike (emptyCache 0) 0 ''git'' ''202'' = Inl SliceBoundsOutOfRange \<and>
   (\<exists>r. GetMessages anyLike (emptyCache 0) 0 ''git'' ''2026'' = Inr r) \<and>
   length (Format_200601 2026 11) = 6"
  using GetMessages_short_month_panics [of "''202''" anyLike "emptyCache 0" 0 "''git''" 2026 11]
    GetMessages_short_month_panics [of "''2026''" anyLike "emptyCache 0" 0 "''git''" 2026 11]
  by simp

subsection \<open>Freshness of cached rows\<close>

lemma Unix_seconds: "Unix (n * 1000000000) = n"
  by (simp add: Unix_def)

lemma cutoff_seconds: "(Unix (n * 1000000000 - t * 1000000000) < u) = (n - u < t)"
proof -
  have "n * 1000000000 - t * 1000000000 = (n - t) * (1000000000 :: int)"
    by (simp add: algebra_simps)
  then show ?thesis
    by (auto simp: Unix_def)
qed

lemma distinct_key_unique:
  assumes "distinct (map f xs)" "x \<in> set xs" "y \<in> set xs" "f x = f y"
  shows "x = y"
  using assms by (meson distinct_map inj_onD)

lemma GetMessageContent_found:
  assumes "distinct (map c_id (message_content (db c)))"
  shows "snd (GetMessageContent ju c now list msgid) =
         (\<exists>r \<in> set (message_content (db c)).
            c_id r = msgid \<and> c_list r = list \<and> Unix (now - ttl c) < c_updated_at r \<and>
            (\<exists>h. ju (c_headers r) = Inr h))"
proof (cases "find (\<lambda>r. c_id r = msgid \<and> c_list r = list \<and> c_updated_at r > cutoff c now)
                (message_content (db c))")
  case None
  then have "\<forall>r \<in> set (message_content (db c)).
               \<not> (c_id r = msgid \<and> c_list r = list \<and> c_updated_at r > cutoff c now)"
    by (simp add: find_None_iff)
  with None show ?thesis
    by (auto simp: GetMessageContent_def cutoff_def)
next
  case (Some r)
  then have r: "r \<in> set (message_content (db c))" "c_id r = msgid" "c_list r = list"
    "c_updated_at r > cutoff c now"
    by (auto simp: find_Some_iff)
  have only: "r' = r" if "r' \<in> set (message_content (db c))" "c_id r' = msgid" for r'
    using distinct_key_unique [OF assms that(1) r(1)] that(2) r(2) by simp
  show ?thesis
  proof (cases "ju (c_headers r)")
    case (Inl e)
    with Some only show ?thesis
      by (auto simp: GetMessageContent_def)
  next
    case (Inr h)
    with Some r show ?thesis
      by (auto simp: GetMessageContent_def cutoff_def)
  qed
qed

lemma sort_key_empty: "(sort_key f xs = []) = (xs = [])"
  by (metis length_sort length_0_conv)

lemma GetMailingLists_found:
  "snd (GetMailingLists c now) =
   (\<exists>r \<in> set (mailing_lists (db c)). Unix (now - ttl c) < ml_updated_at r)"
proof -
  have "snd (GetMailingLists c now) =
        (filter (\<lambda>r. ml_updated_at r > cutoff c now) (mailing_lists (db c)) \<noteq> [])"
    by (simp add: GetMailingLists_def Let_def sort_key_empty)
  then show ?thesis
    by (simp add: filter_empty_conv cutoff_def)
qed

text \<open>
  C3, as the code has it. In a table whose primary key holds, \<^verbatim>\<open>GetMessageContent\<close>
  reports found exactly when a row with the id exists whose list is the requested one,
  whose headers text decodes and whose timestamp is later than the cut-off second
  \<open>Unix (now - ttl)\<close>; \<^verbatim>\<open>GetMailingLists\<close> reports found exactly when some row is later
  than the cut-off. With the clock and the TTL in whole seconds a timestamp is later
  than the cut-off exactly when the age is less than the TTL: a row whose age equals the
  TTL is not found.
\<close>

theorem get_found_iff_newer_than_cutoff:
  assumes "distinct (map c_id (message_content (db c)))"
  shows "(snd (GetMessageContent ju c now list msgid) =
            (\<exists>r \<in> set (message_content (db c)).
               c_id r = msgid \<and> c_list r = list \<and> Unix (now - ttl c) < c_updated_at r \<and>
               (\<exists>h. ju (c_headers r) = Inr h))) \<and>
         (snd (GetMailingLists c now) =
            (\<exists>r \<in> set (mailing_lists (db c)). Unix (now - ttl c) < ml_updated_at r)) \<and>
         ((Unix (n * 1000000000 - t * 1000000000) < u) = (n - u < t))"
  by (intro conjI GetMessageContent_found [OF assms] GetMailingLists_found cutoff_seconds)

theorem get_found_iff_newer_than_cutoff_witness:
  "distinct (map c_id (message_content (db storedOnce))) \<and>
   snd (GetMessageContent exampleUnmarshal storedOnce (149 * Second) ''test'' ''999'') \<and>
   (\<exists>r \<in> set (message_content (db storedOnce)).
      c_id r = ''999'' \<and> c_list r = ''test'' \<and>
      Unix (149 * Second - ttl storedOnce) < c_updated_at r \<and>
      (\<exists>h. exampleUnmarshal (c_headers r) = Inr h))"
proof -
  have h: "distinct (map c_id (message_content (db storedOnce)))"
    by (simp add: storedOnce_def SetMessageContent_def exampleMarshal_def emptyCache_def
        insert_or_replace_content_def Let_def)
  have "snd (GetMessageContent exampleUnmarshal storedOnce (149 * Second) ''test'' ''999'')"
    by (simp add: storedOnce_def SetMessageContent_def exampleMarshal_def emptyCache_def
        insert_or_replace_content_def GetMessageContent_def cutoff_def Unix_def Second_def
        updatedContent_def exampleUnmarshal_def Let_def)
  with h get_found_iff_newer_than_cutoff [OF h, of exampleUnmarshal "149 * Second" "''test''" "''999''"]
  show ?thesis by simp
qed

text \<open>
  C3 as stated fails: a value written at second 100 with a TTL of 50 seconds has age
  exactly 50 seconds at second 150, within the TTL, and is not found.
\<close>

theorem found_is_false_at_age_ttl:
  "150 * Second - 100 * Second \<le> ttl storedOnce \<and>
   GetMessageContent exampleUnmarshal storedOnce (150 * Second) ''test'' ''999'' = (None, False)"
  by (simp add: storedOnce_def SetMessageContent_def exampleMarshal_def emptyCache_def
      insert_or_replace_content_def GetMessageContent_def cutoff_def Unix_def Second_def
      updatedContent_def Let_def)

subsection \<open>Writing and reading a message content\<close>

lemma SetMessageContent_db:
  "jm (Headers v) = Inr j \<Longrightarrow>
   message_content (db (snd (SetMessageContent jm c now v))) =
     filter (\<lambda>r. c_id r \<noteq> ID v) (message_content (db c)) @
     [\<lparr>c_rowid = next_rowid (message_content (db c)), c_id = ID v, c_list = List v,
       c_subject = Subject v, c_author = Author v, c_date = Date v, c_body = Body v,
       c_headers = j, c_updated_at = Unix now\<rparr>]"
  by (simp add: SetMessageContent_def insert_or_replace_content_def Let_def)

lemma SetMessageContent_ttl:
  "ttl (snd (SetMessageContent jm c now v)) = ttl c"
  by (simp add: SetMessageContent_def split: sum.splits)

lemma find_append_none:
  "find P xs = None \<Longrightarrow> find P (xs @ ys) = find P ys"
  by (induction xs) (auto split: if_splits)

lemma Unix_one_second_earlier: "Unix (t - Second) = Unix t - 1"
proof -
  have "(t + (- 1) * 1000000000) div 1000000000 = (- 1 :: int) + t div 1000000000"
    by (rule div_mult_self1) simp
  then show ?thesis
    by (simp add: Unix_def Second_def)
qed

lemma Unix_mono: "s \<le> t \<Longrightarrow> Unix s \<le> Unix t"
  by (simp add: Unix_def zdiv_mono1)

lemma fresh_with_a_second_to_spare:
  assumes "now' - now \<le> ttl c - Second"
  shows "Unix (now' - ttl c) < Unix now"
proof -
  from assms have "now' - ttl c \<le> now - Second" by simp
  then have "Unix (now' - ttl c) \<le> Unix (now - Second)" by (rule Unix_mono)
  then show ?thesis by (simp add: Unix_one_second_earlier)
qed

text \<open>
  C9, as the code has it. Let the codec give back the header map of \<open>v\<close> from its
  encoding. Writing \<open>v\<close> at time \<open>now\<close> and reading its list and id at time \<open>now'\<close> returns
  \<open>v\<close> itself, every field and the header map with its keys as written, exactly when
  the cut-off second of the read, \<open>Unix (now' - ttl)\<close>, is earlier than the second of the
  write; otherwise the read finds nothing. The read is that early whenever at most the
  TTL less one second has passed since the write. The timestamp is stored in whole
  seconds and compared strictly, so the last second of the TTL window is not covered.
\<close>

theorem set_then_get_returns_value_while_fresh:
  assumes "jm (Headers v) = Inr j" and "ju j = Inr (Headers v)"
  shows "GetMessageContent ju (snd (SetMessageContent jm c now v)) now' (List v) (ID v) =
           (if Unix (now' - ttl c) < Unix now then (Some v, True) else (None, False)) \<and>
         (now' - now \<le> ttl c - Second \<longrightarrow> Unix (now' - ttl c) < Unix now)"
proof (intro conjI impI)
  let ?c' = "snd (SetMessageContent jm c now v)"
  let ?P = "\<lambda>r. c_id r = ID v \<and> c_list r = List v \<and> c_updated_at r > cutoff ?c' now'"
  let ?new = "\<lparr>c_rowid = next_rowid (message_content (db c)), c_id = ID v, c_list = List v,
       c_subject = Subject v, c_author = Author v, c_date = Date v, c_body = Body v,
       c_headers = j, c_updated_at = Unix now\<rparr>"
  have "find ?P (filter (\<lambda>r. c_id r \<noteq> ID v) (message_content (db c))) = None"
    by (simp add: find_None_iff)
  then have f: "find ?P (message_content (db ?c')) = find ?P [?new]"
    unfolding SetMessageContent_db [of jm v j c now, OF assms(1)] by (rule find_append_none)
  show "GetMessageContent ju ?c' now' (List v) (ID v) =
           (if Unix (now' - ttl c) < Unix now then (Some v, True) else (None, False))"
  proof (cases "Unix (now' - ttl c) < Unix now")
    case True
    then have "find ?P (message_content (db ?c')) = Some ?new"
      unfolding f by (simp add: cutoff_def SetMessageContent_ttl)
    with True assms(2) show ?thesis
      by (simp add: GetMessageContent_def)
  next
    case False
    then have "find ?P (message_content (db ?c')) = None"
      unfolding f by (simp add: cutoff_def SetMessageContent_ttl)
    with False show ?thesis
      by (simp add: GetMessageContent_def)
  qed
next
  assume "now' - now \<le> ttl c - Second"
  then show "Unix (now' - ttl c) < Unix now"
    by (rule fresh_with_a_second_to_spare)
qed

text \<open>
  The write replaces nothing here and the read comes 48.3 seconds later, with a TTL of
  50 seconds.
\<close>

theorem set_then_get_returns_value_while_fresh_witness:
  "exampleMarshal (Headers updatedContent) = Inr exampleJSON \<and>
   exampleUnmarshal exampleJSON = Inr (Headers updatedContent) \<and>
   149 * Second - (100 * Second + 700000000) \<le> ttl (emptyCache (50 * Second)) - Second \<and>
   GetMessageContent exampleUnmarshal
     (snd (SetMessageContent exampleMarshal (emptyCache (50 * Second))
             (100 * Second + 700000000) updatedContent))
     (149 * Second) (List updatedContent) (ID updatedContent) =
   (Some updatedContent, True)"
proof -
  have m: "exampleMarshal (Headers updatedContent) = Inr exampleJSON"
    by (simp add: exampleMarshal_def)
  have u: "exampleUnmarshal exampleJSON = Inr (Headers updatedContent)"
    by (simp add: exampleUnmarshal_def updatedContent_def)
  have t: "149 * Second - (100 * Second + 700000000) \<le> ttl (emptyCache (50 * Second)) - Second"
    by (simp add: Second_def emptyCache_def)
  from m u t
    set_then_get_returns_value_while_fresh [of exampleMarshal updatedContent exampleJSON
      exampleUnmarshal "emptyCache (50 * Second)" "100 * Second + 700000000" "149 * Second"]
  show ?thesis by simp
qed

text \<open>
  C9 as stated fails: a value written at 100.7 s and read at 150.2 s, 49.5 seconds
  later and within the TTL of 50 seconds, is not found. The stored timestamp is second
  100, the cut-off of the read is second 100, and the row must be later than the
  cut-off.
\<close>

theorem read_within_ttl_misses:
  "(150 * Second + 200000000) - (100 * Second + 700000000) < ttl (emptyCache (50 * Second)) \<and>
   GetMessageContent exampleUnmarshal
     (snd (SetMessageContent exampleMarshal (emptyCache (50 * Second))
             (100 * Second + 700000000) updatedContent))
     (150 * Second + 200000000) (List updatedContent) (ID updatedContent) =
   (None, False)"
  by (simp add: SetMessageContent_def exampleMarshal_def emptyCache_def
      insert_or_replace_content_def GetMessageContent_def cutoff_def Unix_def Second_def
      updatedContent_def Let_def)

subsection \<open>Search over the index\<close>

lemma set_search_rows:
  "set (search_rows hits content list) \<subseteq>
   {row. (c_rowid (snd row), fst row) \<in> set hits \<and> snd row \<in> set content \<and>
         (list = [] \<or> c_list (snd row) = list)}"
proof -
  let ?joined = "concat (map (\<lambda>hit. map (\<lambda>mc. (snd hit, mc))
                  (filter (\<lambda>mc. c_rowid mc = fst hit \<and> (list = [] \<or> c_list mc = list)) content))
          hits)"
  have "set (search_rows hits content list) \<subseteq> set (sort_key fst ?joined)"
    unfolding search_rows_def by (rule set_take_subset)
  also have "\<dots> = set ?joined"
    by (rule set_sort)
  also have "\<dots> \<subseteq> {row. (c_rowid (snd row), fst row) \<in> set hits \<and> snd row \<in> set content \<and>
         (list = [] \<or> c_list (snd row) = list)}"
    by auto
  finally show ?thesis .
qed

lemma sorted_take_sort_key: "sorted (map f (take n (sort_key f xs)))"
  by (metis sorted_sort_key sorted_wrt_take take_map)

lemma sorted_search_rows: "sorted (map fst (search_rows hits content list))"
  unfolding search_rows_def by (rule sorted_take_sort_key)

lemma length_search_rows: "length (search_rows hits content list) \<le> 100"
  by (simp add: search_rows_def)

lemma set_joined:
  "set (concat (map (\<lambda>hit. map (\<lambda>mc. (snd hit, mc))
          (filter (\<lambda>mc. c_rowid mc = fst hit \<and> (list = [] \<or> c_list mc = list)) content)) hits)) =
   {row. (c_rowid (snd row), fst row) \<in> set hits \<and> snd row \<in> set content \<and>
         (list = [] \<or> c_list (snd row) = list)}"
  by force

lemma distinct_joined:
  assumes "distinct content"
  shows "distinct (map fst hits) \<Longrightarrow>
         distinct (concat (map (\<lambda>hit. map (\<lambda>mc. (snd hit, mc))
           (filter (\<lambda>mc. c_rowid mc = fst hit \<and> P mc) content)) hits))"
proof (induction hits)
  case Nil
  show ?case by simp
next
  case (Cons h hs)
  have "distinct (map (\<lambda>mc. (snd h, mc)) (filter (\<lambda>mc. c_rowid mc = fst h \<and> P mc) content))"
    using assms by (simp add: distinct_map inj_on_def)
  moreover have "distinct (concat (map (\<lambda>hit. map (\<lambda>mc. (snd hit, mc))
           (filter (\<lambda>mc. c_rowid mc = fst hit \<and> P mc) content)) hs))"
    using Cons by simp
  moreover have "set (map (\<lambda>mc. (snd h, mc)) (filter (\<lambda>mc. c_rowid mc = fst h \<and> P mc) content)) \<inter>
      set (concat (map (\<lambda>hit. map (\<lambda>mc. (snd hit, mc))
           (filter (\<lambda>mc. c_rowid mc = fst hit \<and> P mc) content)) hs)) = {}"
    using Cons.prems by force
  ultimately show ?case by simp
qed

text \<open>
  C8, as the code has it. A query that the engine rejects comes back as the error
  \<^verbatim>\<open>search failed\<close> around the engine's error. For a query that the engine accepts, let
  it give each matching entry once, with its rank, in a table whose rowids are distinct.
  Then the rows that match, those of the content table whose rowid is among the hits
  and, under a list scope, whose list is the scope, stand each once in a list ordered by
  ascending rank, and \<^verbatim>\<open>SearchMessages\<close> returns the stubs of its first 100 rows, without
  an error: all of them when at most 100 match, none when nothing matches.
\<close>

theorem SearchMessages_first_hundred_by_rank:
  assumes "distinct (map fst hits)"
    and "distinct (map c_rowid (message_content (db c)))"
  shows "(fts5 query (messages_fts (db c)) = Inl err \<longrightarrow>
            SearchMessages fts5 c query list = Inl (Wrap ''search failed'' err)) \<and>
         (fts5 query (messages_fts (db c)) = Inr hits \<longrightarrow>
            (\<exists>all. set all = {row. (c_rowid (snd row), fst row) \<in> set hits \<and>
                                    snd row \<in> set (message_content (db c)) \<and>
                                    (list = [] \<or> c_list (snd row) = list)} \<and>
                   distinct all \<and> sorted (map fst all) \<and>
                   SearchMessages fts5 c query list =
                     Inr (map (\<lambda>row. scanMessage (snd row)) (take 100 all))))"
proof (intro conjI impI)
  assume "fts5 query (messages_fts (db c)) = Inl err"
  then show "SearchMessages fts5 c query list = Inl (Wrap ''search failed'' err)"
    by (simp add: SearchMessages_def)
next
  assume h: "fts5 query (messages_fts (db c)) = Inr hits"
  let ?content = "message_content (db c)"
  let ?joined = "concat (map (\<lambda>hit. map (\<lambda>mc. (snd hit, mc))
          (filter (\<lambda>mc. c_rowid mc = fst hit \<and> (list = [] \<or> c_list mc = list)) ?content)) hits)"
  let ?all = "sort_key fst ?joined"
  have "set ?all = set ?joined"
    by (rule set_sort)
  also have "\<dots> = {row. (c_rowid (snd row), fst row) \<in> set hits \<and> snd row \<in> set ?content \<and>
         (list = [] \<or> c_list (snd row) = list)}"
    by (rule set_joined)
  finally have s: "set ?all = {row. (c_rowid (snd row), fst row) \<in> set hits \<and>
      snd row \<in> set ?content \<and> (list = [] \<or> c_list (snd row) = list)}" .
  from assms(2) have "distinct ?content"
    by (simp add: distinct_map)
  then have "distinct ?joined"
    using assms(1) by (rule distinct_joined)
  then have d: "distinct ?all"
    by (simp only: distinct_sort)
  have o: "sorted (map fst ?all)"
    by (rule sorted_sort_key)
  have r: "SearchMessages fts5 c query list =
      Inr (map (\<lambda>row. scanMessage (snd row)) (take 100 ?all))"
    using h by (simp add: SearchMessages_def search_rows_def)
  from s d o r show "\<exists>all. set all = {row. (c_rowid (snd row), fst row) \<in> set hits \<and>
                                    snd row \<in> set ?content \<and>
                                    (list = [] \<or> c_list (snd row) = list)} \<and>
                   distinct all \<and> sorted (map fst all) \<and>
                   SearchMessages fts5 c query list =
                     Inr (map (\<lambda>row. scanMessage (snd row)) (take 100 all))"
    by (intro exI [of _ ?all] conjI)
qed

lemma filter_numbered:
  "filter (\<lambda>mc. c_rowid mc = i \<and> P mc) (map numberedRow [a..<b]) =
   (if a \<le> i \<and> i < b \<and> P (numberedRow i) then [numberedRow i] else [])"
proof (induction b)
  case 0
  show ?case by simp
next
  case (Suc b)
  show ?case
  proof (cases "a \<le> b")
    case True
    with Suc show ?thesis
      by (auto simp add: numberedRow_def)
  next
    case False
    then show ?thesis by simp
  qed
qed

lemma joined_numbered:
  "concat (map (\<lambda>hit. map (\<lambda>mc. (snd hit, mc))
       (filter (\<lambda>mc. c_rowid mc = fst hit \<and> P mc) (map numberedRow [a..<b])))
     (map rankedLast [a..<b])) =
   map (\<lambda>i. (- int i, numberedRow i)) (filter (\<lambda>i. P (numberedRow i)) [a..<b])"
proof -
  have "concat (map (\<lambda>hit. map (\<lambda>mc. (snd hit, mc))
       (filter (\<lambda>mc. c_rowid mc = fst hit \<and> P mc) (map numberedRow [a..<b]))) (map rankedLast xs)) =
     map (\<lambda>i. (- int i, numberedRow i)) (filter (\<lambda>i. P (numberedRow i)) xs)"
    if "set xs \<subseteq> {a..<b}" for xs
    using that by (induction xs) (simp_all add: filter_numbered rankedLast_def)
  then show ?thesis by simp
qed

lemma insort_key_last:
  "\<forall>y \<in> set ys. f y < f x \<Longrightarrow> insort_key f x ys = ys @ [x]"
  by (induction ys) auto

lemma sort_key_descending:
  "sorted xs \<Longrightarrow> distinct xs \<Longrightarrow>
   sort_key fst (map (\<lambda>i. (- int i, g i)) xs) = rev (map (\<lambda>i. (- int i, g i)) xs)"
proof (induction xs)
  case Nil
  show ?case by simp
next
  case (Cons x xs)
  then have "\<forall>y \<in> set xs. x < y"
    by (auto simp add: order_less_le)
  then have "\<forall>y \<in> set (rev (map (\<lambda>i. (- int i, g i)) xs)). fst y < fst (- int x, g x)"
    by auto
  then have "insort_key fst (- int x, g x) (rev (map (\<lambda>i. (- int i, g i)) xs)) =
      rev (map (\<lambda>i. (- int i, g i)) xs) @ [(- int x, g x)]"
    by (rule insort_key_last)
  with Cons show ?case by simp
qed

lemma search_rows_numbered:
  "search_rows (map rankedLast [a..<b]) (map numberedRow [a..<b]) list =
   take 100 (rev (map (\<lambda>i. (- int i, numberedRow i))
     (filter (\<lambda>i. list = [] \<or> c_list (numberedRow i) = list) [a..<b])))"
proof -
  have "sorted (filter (\<lambda>i. list = [] \<or> c_list (numberedRow i) = list) [a..<b])"
    by (rule sorted_filter [of "\<lambda>x. x", simplified]) simp
  moreover have "distinct (filter (\<lambda>i. list = [] \<or> c_list (numberedRow i) = list) [a..<b])"
    by simp
  ultimately show ?thesis
    unfolding search_rows_def joined_numbered by (simp only: sort_key_descending)
qed

lemma numbered_hits: "exampleFts5 ''Fix'' (map numberedEntry xs) = Inr (map rankedLast xs)"
proof -
  have "Contains ''Fix'' ''Fix''" by code_simp
  then show ?thesis
    by (simp add: exampleFts5_def numberedEntry_def fts_of_def numberedRow_def rankedLast_def)
qed

lemma scanMessage_numbered: "scanMessage (numberedRow i) = stub i"
  by (simp add: scanMessage_def numberedRow_def stub_def)

lemma SearchMessages_numbered:
  "SearchMessages exampleFts5 manyCache ''Fix'' list =
   Inr (map stub (take 100 (rev (filter (\<lambda>i. list = [] \<or> c_list (numberedRow i) = list)
                                   [1..<103]))))"
  by (simp add: SearchMessages_def manyCache_def numbered_hits search_rows_numbered
      take_map rev_map scanMessage_numbered o_def del: upt_rec_numeral)

text \<open>
  On the cache of 102 messages every subject has the word \<^verbatim>\<open>Fix\<close>. Without a scope the
  search returns the 100 rows of best rank, rows 102 down to 3, in that order; under the
  scope \<^verbatim>\<open>git\<close> it returns the 51 even rows; the empty query is an error.
\<close>

theorem SearchMessages_first_hundred_by_rank_witness:
  "distinct (map fst manyHits) \<and>
   distinct (map c_rowid (message_content (db manyCache))) \<and>
   exampleFts5 ''Fix'' (messages_fts (db manyCache)) = Inr manyHits \<and>
   SearchMessages exampleFts5 manyCache ''Fix'' [] = Inr (map stub (rev [3..<103])) \<and>
   SearchMessages exampleFts5 manyCache ''Fix'' ''git'' =
     Inr (map stub (rev (filter even [1..<103]))) \<and>
   exampleFts5 [] (messages_fts (db manyCache)) = Inl (Err ''fts5: syntax error'') \<and>
   SearchMessages exampleFts5 manyCache [] [] =
     Inl (Wrap ''search failed'' (Err ''fts5: syntax error''))"
proof -
  have d1: "distinct (map fst manyHits)"
    by (simp add: manyHits_def rankedLast_def o_def del: upt_rec_numeral)
  have d2: "distinct (map c_rowid (message_content (db manyCache)))"
    by (simp add: manyCache_def numberedRow_def o_def del: upt_rec_numeral)
  have h: "exampleFts5 ''Fix'' (messages_fts (db manyCache)) = Inr manyHits"
    by (simp add: manyCache_def manyHits_def numbered_hits del: upt_rec_numeral)
  have e: "exampleFts5 [] (messages_fts (db manyCache)) = Inl (Err ''fts5: syntax error'')"
    by (simp add: exampleFts5_def)
  have "take 100 (rev [1..<103]) = rev [3::nat..<103]"
    by code_simp
  then have a: "SearchMessages exampleFts5 manyCache ''Fix'' [] = Inr (map stub (rev [3..<103]))"
    by (simp add: SearchMessages_numbered del: upt_rec_numeral)
  have "take 100 (rev (filter even [1::nat..<103])) = rev (filter even [1..<103])"
    by code_simp
  then have g: "SearchMessages exampleFts5 manyCache ''Fix'' ''git'' =
      Inr (map stub (rev (filter even [1..<103])))"
    by (simp add: SearchMessages_numbered numberedRow_def del: upt_rec_numeral)
  from SearchMessages_first_hundred_by_rank [OF d1 d2, of exampleFts5 "[]"
      "Err ''fts5: syntax error''" "[]"] e
  have "SearchMessages exampleFts5 manyCache [] [] =
      Inl (Wrap ''search failed'' (Err ''fts5: syntax error''))"
    by simp
  with d1 d2 h a g e
    SearchMessages_first_hundred_by_rank [OF d1 d2, of exampleFts5 "''Fix''"
      "Err ''fts5: syntax error''" "[]"]
  show ?thesis
    by (intro conjI)
qed

text \<open>
  C8 as stated fails: not every query gives a result without an error. The full-text
  engine rejects the empty query as a syntax error, and \<^verbatim>\<open>SearchMessages\<close> returns that
  error, wrapped.
\<close>

theorem SearchMessages_rejects_the_empty_query:
  "SearchMessages exampleFts5 storedTwice [] [] =
     Inl (Wrap ''search failed'' (Err ''fts5: syntax error''))"
  by (simp add: SearchMessages_def exampleFts5_def)

subsection \<open>The index after a replaced row\<close>

text \<open>
  Where the triggers run they keep the index in step with the content: a first write
  under an id, the cleanup's deletes, and also a replacing write if the connection had
  recursive triggers on. The program's replacing write is the one case where the delete
  trigger does not run.
\<close>

lemma first_write_keeps_index_in_sync:
  assumes "index_in_sync (db c)"
    and "list_all (\<lambda>r. c_id r \<noteq> ID v) (message_content (db c))"
    and "json_Marshal (Headers v) = Inr j"
  shows "index_in_sync (db (snd (SetMessageContent json_Marshal c now v)))"
proof -
  have "filter (\<lambda>r. c_id r \<noteq> ID v) (message_content (db c)) = message_content (db c)"
    using assms(2) by (simp add: list_all_iff)
  with assms(1,3) show ?thesis
    by (simp add: SetMessageContent_def insert_or_replace_content_def Let_def
        index_in_sync_def messages_fts_insert_def)
qed

lemma replaced_row_leaves_index_with_recursive_triggers:
  "index_in_sync
     (insert_or_replace_content True
        (\<lambda>rowid. \<lparr>c_rowid = rowid, c_id = ''999'', c_list = ''test'', c_subject = ''Updated'',
                   c_author = [], c_date = [], c_body = ''Updated body'',
                   c_headers = exampleJSON, c_updated_at = 120\<rparr>)
        (insert_or_replace_content True
           (\<lambda>rowid. \<lparr>c_rowid = rowid, c_id = ''999'', c_list = ''test'',
                      c_subject = ''Initial'', c_author = [], c_date = [],
                      c_body = ''Initial body'', c_headers = exampleJSON, c_updated_at = 100\<rparr>)
           (db (emptyCache (50 * Second)))))"
  by (simp add: insert_or_replace_content_def Let_def index_in_sync_def emptyCache_def
      messages_fts_insert_def messages_fts_delete_def fts_of_def next_rowid_def)

lemma set_fold_remove1:
  "distinct idx \<Longrightarrow> set (fold (\<lambda>r. remove1 (f r)) rs idx) = set idx - f ` set rs"
proof (induction rs arbitrary: idx)
  case Nil
  then show ?case by simp
next
  case (Cons r rs)
  then show ?case by (auto simp: set_remove1_eq)
qed

lemma fts_of_inj:
  assumes "distinct (map c_rowid rows)"
  shows "inj_on fts_of (set rows)"
proof (rule inj_onI)
  fix x y
  assume "x \<in> set rows" "y \<in> set rows" "fts_of x = fts_of y"
  then have "c_rowid x = c_rowid y"
    by (metis fts_row.select_convs(1) fts_of_def)
  with \<open>x \<in> set rows\<close> \<open>y \<in> set rows\<close> show "x = y"
    using distinct_key_unique [OF assms] by blast
qed

lemma Cleanup_keeps_index_in_sync:
  assumes "index_in_sync (db c)" and "distinct (messages_fts (db c))"
    and "distinct (map c_rowid (message_content (db c)))"
  shows "index_in_sync (db (Cleanup c now))"
proof -
  let ?rows = "message_content (db c)"
  let ?old = "\<lambda>r. c_updated_at r < cutoff c now"
  have idx: "set (messages_fts (db (Cleanup c now))) =
             set (messages_fts (db c)) - fts_of ` set (filter ?old ?rows)"
    using set_fold_remove1 [OF assms(2), of fts_of "filter ?old ?rows"]
    by (simp add: Cleanup_def delete_content_before_def messages_fts_delete_def [abs_def])
  have rows: "message_content (db (Cleanup c now)) = filter (\<lambda>r. \<not> ?old r) ?rows"
    by (simp add: Cleanup_def delete_content_before_def)
  have "fts_of ` set (filter (\<lambda>r. \<not> ?old r) ?rows) =
        fts_of ` (set ?rows - set (filter ?old ?rows))"
    by (rule arg_cong [where f = "image fts_of"]) auto
  also have "\<dots> = fts_of ` set ?rows - fts_of ` set (filter ?old ?rows)"
    by (rule inj_on_image_set_diff [OF fts_of_inj [OF assms(3)]]) auto
  finally show ?thesis
    using assms(1) unfolding index_in_sync_def idx rows by simp
qed

text \<open>
  The entry that stays behind can be seen: once the cleanup has emptied the table, the
  next message gets row id 1 again, and a search for a word of the replaced message
  returns the new one.
\<close>

lemma stale_entry_answers_for_reused_rowid:
  "map c_id (message_content (db storedAgain)) = [''7''] \<and>
   SearchMessages exampleFts5 storedAgain ''Initial'' [] =
     Inr [\<lparr>ID = ''7'', Subject = ''Other'', Author = [], Date = [], List = ''test''\<rparr>]"
  by code_simp

text \<open>
  C7 fails on the code. Writing a message and writing it again under the same id
  leaves one content row, with row id 2, and two index entries: the entry of the
  replaced row, row id 1, stays in the index without a content row.
\<close>

theorem replaced_row_stays_in_index:
  "map c_rowid (message_content (db storedTwice)) = [2] \<and>
   messages_fts (db storedTwice) =
     [\<lparr>f_rowid = 1, f_id = ''999'', f_list = ''test'', f_subject = ''Initial'',
        f_author = [], f_body = ''Initial body''\<rparr>,
      \<lparr>f_rowid = 2, f_id = ''999'', f_list = ''test'', f_subject = ''Updated'',
        f_author = [], f_body = ''Updated body''\<rparr>] \<and>
   index_in_sync (db storedTwice) = False"
proof -
  have rows: "message_content (db storedTwice) =
     [\<lparr>c_rowid = 2, c_id = ''999'', c_list = ''test'', c_subject = ''Updated'',
        c_author = [], c_date = [], c_body = ''Updated body'', c_headers = exampleJSON,
        c_updated_at = 120\<rparr>]"
    by (simp add: storedTwice_def SetMessageContent_def exampleMarshal_def emptyCache_def
        insert_or_replace_content_def next_rowid_def initialContent_def updatedContent_def
        Let_def Unix_def Second_def)
  have idx: "messages_fts (db storedTwice) =
     [\<lparr>f_rowid = 1, f_id = ''999'', f_list = ''test'', f_subject = ''Initial'',
        f_author = [], f_body = ''Initial body''\<rparr>,
      \<lparr>f_rowid = 2, f_id = ''999'', f_list = ''test'', f_subject = ''Updated'',
        f_author = [], f_body = ''Updated body''\<rparr>]"
    by (simp add: storedTwice_def SetMessageContent_def exampleMarshal_def emptyCache_def
        insert_or_replace_content_def next_rowid_def messages_fts_insert_def fts_of_def
        initialContent_def updatedContent_def Let_def)
  have "index_in_sync (db storedTwice) = False"
    unfolding index_in_sync_def rows idx by (simp add: fts_of_def)
  with rows idx show ?thesis by simp
qed

subsection \<open>The message extractor and malformed input\<close>

lemma trimLeft_Nil: "trimLeft us [] = []"
  by (subst trimLeft.simps) (simp add: spaceWidth_def)

lemma TrimSpace_Nil: "TrimSpace [] = []"
  by (simp add: TrimSpace_def trimLeft_Nil)

lemma walkPre_without_pre:
  "(\<not> hasPre n \<longrightarrow> (\<forall>acc. walkPre n (False, acc) = (False, acc)))"
  "(\<not> hasPre_children cs \<longrightarrow> (\<forall>acc. walkPre_children cs (False, acc) = (False, acc)))"
  by (induction n and cs rule: hasPre_hasPre_children.induct) auto

lemma setHeader_keeps: "ID (setHeader line idx msg) = ID msg \<and> List (setHeader line idx msg) = List msg"
  by (simp add: setHeader_def Let_def)

lemma parseBlock_keeps:
  "ID (fst (parseBlock lines inH msg body)) = ID msg \<and>
   List (fst (parseBlock lines inH msg body)) = List msg"
  by (induction lines inH msg body rule: parseBlock.induct)
     (simp_all add: setHeader_keeps split: option.splits)

text \<open>
  C2, as the code has it. \<^verbatim>\<open>parseMessage\<close> fails exactly when the HTML parser fails,
  with the parser's error. For every text that parses it returns a record with the
  caller's id and list; for a document without a \<^verbatim>\<open>pre\<close> element the record has an
  empty subject, author, date and body and no headers.
\<close>

theorem parseMessage_fails_only_with_parser:
  "((parseMessage html_Parse raw list messageID = Inl err) = (html_Parse raw = Inl err)) \<and>
   (html_Parse raw = Inr doc \<longrightarrow>
      (\<exists>msg. parseMessage html_Parse raw list messageID = Inr msg \<and>
             ID msg = messageID \<and> List msg = list)) \<and>
   (html_Parse raw = Inr doc \<and> \<not> hasPre doc \<longrightarrow>
      parseMessage html_Parse raw list messageID =
        Inr \<lparr>ID = messageID, Subject = [], Author = [], Date = [], List = list,
             Body = [], Headers = Map.empty\<rparr>)"
proof (intro conjI impI)
  show "(parseMessage html_Parse raw list messageID = Inl err) = (html_Parse raw = Inl err)"
    by (cases "html_Parse raw") (simp_all add: parseMessage_def Let_def)
next
  assume "html_Parse raw = Inr doc"
  then show "\<exists>msg. parseMessage html_Parse raw list messageID = Inr msg \<and>
                   ID msg = messageID \<and> List msg = list"
    by (simp add: parseMessage_def Let_def parseBlock_keeps)
next
  assume a: "html_Parse raw = Inr doc \<and> \<not> hasPre doc"
  then have "walkPre doc (False, []) = (False, [])"
    using walkPre_without_pre(1) by blast
  with a show "parseMessage html_Parse raw list messageID =
        Inr \<lparr>ID = messageID, Subject = [], Author = [], Date = [], List = list,
             Body = [], Headers = Map.empty\<rparr>"
    by (simp add: parseMessage_def Let_def TrimSpace_Nil)
qed

theorem parseMessage_fails_only_with_parser_witness:
  "parseHello ''hello'' = Inr docHello \<and> \<not> hasPre docHello \<and>
   parseMessage parseHello ''hello'' ''git'' ''1'' =
     Inr \<lparr>ID = ''1'', Subject = [], Author = [], Date = [], List = ''git'',
          Body = [], Headers = Map.empty\<rparr>"
proof -
  have p: "parseHello ''hello'' = Inr docHello"
    by (simp add: parseHello_def)
  have n: "\<not> hasPre docHello"
    by (simp add: docHello_def)
  from p n parseMessage_fails_only_with_parser [of parseHello "''hello''" "''git''" "''1''" _ docHello]
  show ?thesis by simp
qed

text \<open>
  C2 as stated fails: the text \<^verbatim>\<open>hello\<close> has no block, and \<^verbatim>\<open>parseMessage\<close> returns a
  record for it, with no error.
\<close>

theorem parseMessage_without_block_returns_record:
  "hasPre docHello = False \<and>
   parseMessage parseHello ''hello'' ''git'' ''1'' =
     Inr \<lparr>ID = ''1'', Subject = [], Author = [], Date = [], List = ''git'',
          Body = [], Headers = Map.empty\<rparr>"
  by (simp add: parseMessage_def parseHello_def docHello_def Let_def TrimSpace_Nil)

subsection \<open>The client's search and the cache\<close>

lemma SearchMessages_from_content:
  assumes "SearchMessages fts5 k q l = Inr ms"
  shows "set ms \<subseteq> scanMessage ` set (message_content (db k))"
proof (cases "fts5 q (messages_fts (db k))")
  case (Inl e)
  with assms show ?thesis by (simp add: SearchMessages_def)
next
  case (Inr hits)
  with assms have ms: "ms = map (\<lambda>row. scanMessage (snd row))
                             (search_rows hits (message_content (db k)) l)"
    by (simp add: SearchMessages_def)
  show ?thesis
    unfolding ms using set_search_rows [of hits "message_content (db k)" l] by auto
qed

text \<open>
  C1, as the code has it. \<^verbatim>\<open>Search\<close> requests one URL from the archive, the search page
  for the list, the query and the search type; it leaves the cache as it was; its
  result does not depend on the cache, and is the archive's error or the messages
  parsed from the archive's page. The cache's own \<^verbatim>\<open>SearchMessages\<close>, which \<^verbatim>\<open>Search\<close>
  does not call, returns only messages of stored content rows.
\<close>

theorem Search_asks_the_archive:
  "requested (snd (Search upstream c list query searchType)) =
     requested c @
     [baseURL @ ''?l='' @ QueryEscape list @ ''&s='' @ QueryEscape query @ ''&q='' @
      QueryEscape (if searchType = [] then ''s'' else searchType) @ ''&w=2''] \<and>
   cache (snd (Search upstream c list query searchType)) = cache c \<and>
   fst (Search upstream (c\<lparr>cache := k\<rparr>) list query searchType) =
     fst (Search upstream c list query searchType) \<and>
   fst (Search upstream c list query searchType) =
     (case upstream (last (requested (snd (Search upstream c list query searchType)))) of
        Inl err \<Rightarrow> Inl err
      | Inr doc \<Rightarrow> Inr (parseMessageList doc list)) \<and>
   (SearchMessages fts5 k q l = Inr ms \<longrightarrow>
      set ms \<subseteq> scanMessage ` set (message_content (db k)))"
proof (intro conjI impI)
  show "requested (snd (Search upstream c list query searchType)) =
     requested c @
     [baseURL @ ''?l='' @ QueryEscape list @ ''&s='' @ QueryEscape query @ ''&q='' @
      QueryEscape (if searchType = [] then ''s'' else searchType) @ ''&w=2'']"
    by (simp add: Search_def fetch_def Let_def split: sum.splits)
  show "cache (snd (Search upstream c list query searchType)) = cache c"
    by (simp add: Search_def fetch_def Let_def split: sum.splits)
  show "fst (Search upstream (c\<lparr>cache := k\<rparr>) list query searchType) =
     fst (Search upstream c list query searchType)"
    by (simp add: Search_def fetch_def Let_def split: sum.splits)
  show "fst (Search upstream c list query searchType) =
     (case upstream (last (requested (snd (Search upstream c list query searchType)))) of
        Inl err \<Rightarrow> Inl err
      | Inr doc \<Rightarrow> Inr (parseMessageList doc list))"
    by (simp add: Search_def fetch_def Let_def split: sum.splits)
next
  assume "SearchMessages fts5 k q l = Inr ms"
  then show "set ms \<subseteq> scanMessage ` set (message_content (db k))"
    by (rule SearchMessages_from_content)
qed

theorem Search_asks_the_archive_witness:
  "SearchMessages exampleFts5 storedTwice ''Updated'' ''test'' =
     Inr [\<lparr>ID = ''999'', Subject = ''Updated'', Author = [], Date = [], List = ''test''\<rparr>] \<and>
   set [\<lparr>ID = ''999'', Subject = ''Updated'', Author = [], Date = [], List = ''test''\<rparr>]
     \<subseteq> scanMessage ` set (message_content (db storedTwice)) \<and>
   requested (snd (Search archive freshClient ''git'' ''Fix'' [])) =
     [''https://marc.info/?l=git&s=Fix&q=s&w=2'']"
proof -
  have h: "SearchMessages exampleFts5 storedTwice ''Updated'' ''test'' =
     Inr [\<lparr>ID = ''999'', Subject = ''Updated'', Author = [], Date = [], List = ''test''\<rparr>]"
    by code_simp
  have r: "requested (snd (Search archive freshClient ''git'' ''Fix'' [])) =
     [''https://marc.info/?l=git&s=Fix&q=s&w=2'']"
    by code_simp
  from h r Search_asks_the_archive [of archive freshClient "''git''" "''Fix''" "[]" storedTwice
      exampleFts5 "''Updated''" "''test''"
      "[\<lparr>ID = ''999'', Subject = ''Updated'', Author = [], Date = [], List = ''test''\<rparr>]"]
  show ?thesis by blast
qed

text \<open>
  C1 as stated fails: with an empty cache, \<^verbatim>\<open>Search\<close> requests the search page from the
  archive and returns the message on it, which was never cached.
\<close>

theorem Search_returns_uncached_message:
  "message_content (db (cache freshClient)) = [] \<and>
   Search archive freshClient ''git'' ''Fix'' [] =
     (Inr [\<lparr>ID = ''42'', Subject = ''Fix bug'', Author = ''Fix bug git  Alice'',
            Date = ''2026-02-24'', List = ''git''\<rparr>],
      freshClient\<lparr>requested := [''https://marc.info/?l=git&s=Fix&q=s&w=2'']\<rparr>)"
  by code_simp

subsection \<open>The listing extractor: rows and stubs\<close>

lemma parseLines_acc:
  "parseLines list ls acc = acc @ List.map_filter (parseLine list) ls"
  by (induction ls arbitrary: acc) (simp_all add: List.map_filter_simps split: option.splits)

lemma isoDateAt_found: "isoDateAt s \<Longrightarrow> dateRegex_FindString (p @ s) \<noteq> []"
proof (induction p)
  case Nil
  then show ?case by (cases s) auto
next
  case (Cons c p)
  then show ?case by simp
qed

lemma messageLine_has_date:
  assumes "messageLineRegex_MatchString line"
  shows "dateRegex_FindString line \<noteq> []"
proof -
  let ?s1 = "dropWhile reSpace line"
  let ?s2 = "dropWhile isDigit ?s1"
  from assms obtain dot s3 where s2: "?s2 = dot # s3"
    and d: "isoDateAt (dropWhile reSpace s3)"
    by (auto simp: messageLineRegex_MatchString_def Let_def split: list.splits)
  have "line = takeWhile reSpace line @ ?s1" by simp
  also have "?s1 = takeWhile isDigit ?s1 @ ?s2" by simp
  also have "?s2 = dot # takeWhile reSpace s3 @ dropWhile reSpace s3"
    using s2 by simp
  finally have "line = (takeWhile reSpace line @ takeWhile isDigit ?s1 @ dot # takeWhile reSpace s3)
                   @ dropWhile reSpace s3"
    by simp
  then show ?thesis
    using isoDateAt_found [OF d] by metis
qed

lemma parseLine_Some_iff:
  "(parseLine list line \<noteq> None) = (messageLineRegex_MatchString line \<and> hasMessageLink list line)"
proof (cases "messageLineRegex_MatchString line")
  case False
  then show ?thesis by (simp add: parseLine_def)
next
  case True
  then have "dateRegex_FindString line \<noteq> []" by (rule messageLine_has_date)
  with True show ?thesis
    by (simp add: parseLine_def hasMessageLink_def Let_def split: option.splits)
qed

lemma length_map_filter:
  "length (List.map_filter f xs) = length (filter (\<lambda>x. f x \<noteq> None) xs)"
  by (induction xs) (simp_all add: List.map_filter_simps split: option.splits)

lemma map_filter_filter:
  "(\<And>x. f x \<noteq> None \<Longrightarrow> P x) \<Longrightarrow> List.map_filter f (filter P xs) = List.map_filter f xs"
  by (induction xs) (auto simp: List.map_filter_simps split: option.splits)

lemma length_filter_conj:
  "length (filter (\<lambda>x. P x \<and> Q x) xs) \<le> length (filter P xs)"
  by (induction xs) auto

text \<open>
  C4, as the code has it. The stubs of a page come from the lines that match the
  row-prefix pattern, in page order, at most one from each: exactly one from each
  matching line that also carries a message link, none from any other line. So a page
  with \<open>N\<close> matching lines gives at most \<open>N\<close> stubs.
\<close>

theorem listing_stubs_from_linked_rows:
  "parseMessageListFromRaw raw list =
     List.map_filter (parseLine list) (filter messageLineRegex_MatchString (Split_nl raw)) \<and>
   length (parseMessageListFromRaw raw list) =
     length (filter (\<lambda>line. messageLineRegex_MatchString line \<and> hasMessageLink list line)
               (Split_nl raw)) \<and>
   length (parseMessageListFromRaw raw list) \<le>
     length (filter messageLineRegex_MatchString (Split_nl raw))"
proof -
  have all: "parseMessageListFromRaw raw list = List.map_filter (parseLine list) (Split_nl raw)"
    by (simp add: parseMessageListFromRaw_def parseLines_acc)
  have only: "parseMessageListFromRaw raw list =
     List.map_filter (parseLine list) (filter messageLineRegex_MatchString (Split_nl raw))"
    unfolding all
    by (rule map_filter_filter [symmetric]) (use parseLine_Some_iff in blast)
  have count: "length (parseMessageListFromRaw raw list) =
     length (filter (\<lambda>line. messageLineRegex_MatchString line \<and> hasMessageLink list line)
               (Split_nl raw))"
    unfolding all length_map_filter by (simp only: parseLine_Some_iff)
  have "length (filter (\<lambda>line. messageLineRegex_MatchString line \<and> hasMessageLink list line)
               (Split_nl raw)) \<le> length (filter messageLineRegex_MatchString (Split_nl raw))"
    by (rule length_filter_conj)
  with only count show ?thesis by simp
qed

theorem listing_stubs_from_linked_rows_witness:
  "parseMessageListFromRaw listingPage ''git'' =
     [\<lparr>ID = ''42'', Subject = ''Fix bug'', Author = ''Alice'', Date = ''2026-02-24'',
       List = ''git''\<rparr>] \<and>
   length (filter (\<lambda>line. messageLineRegex_MatchString line \<and> hasMessageLink ''git'' line)
             (Split_nl listingPage)) = 1"
proof -
  have "parseMessageListFromRaw listingPage ''git'' =
     [\<lparr>ID = ''42'', Subject = ''Fix bug'', Author = ''Alice'', Date = ''2026-02-24'',
       List = ''git''\<rparr>]"
    by code_simp
  with listing_stubs_from_linked_rows [of listingPage "''git''"] show ?thesis by simp
qed

text \<open>
  C4 as stated fails: on this page two lines match the row-prefix pattern, and the
  extractor returns one stub.
\<close>

theorem matching_row_without_link_gives_no_stub:
  "length (filter messageLineRegex_MatchString (Split_nl listingPage)) = 2 \<and>
   length (parseMessageListFromRaw listingPage ''git'') = 1"
  by code_simp

subsection \<open>The listing extractor: the author\<close>

lemma Index_Some_HasPrefix: "Index s sub = Some i \<Longrightarrow> HasPrefix (drop i s) sub"
proof (induction s arbitrary: i)
  case Nil
  then show ?case by (simp add: HasPrefix_def split: if_splits)
next
  case (Cons c cs)
  then show ?case by (auto split: if_splits)
qed

lemma LastIndex_None_no_occurrence:
  "LastIndex s sub = None \<Longrightarrow> \<not> HasPrefix (drop i s) sub"
proof (induction s arbitrary: i)
  case Nil
  then show ?case by (auto simp: HasPrefix_def split: if_splits)
next
  case (Cons c cs)
  then show ?case by (cases i) (auto split: option.splits if_splits)
qed

lemma occurrence_LastIndex:
  assumes "Index (drop n s) sub = Some i"
  shows "\<exists>k. LastIndex s sub = Some k"
proof -
  have "HasPrefix (drop (i + n) s) sub"
    using Index_Some_HasPrefix [OF assms] by simp
  then have "LastIndex s sub \<noteq> None"
    using LastIndex_None_no_occurrence by blast
  then show ?thesis by auto
qed

text \<open>
  C5, as the code has it. For every line that yields a stub, the line has a last
  close-tag \<^verbatim>\<open></a>\<close>, and the stub's author is the text after it, trimmed of surrounding
  white space; nothing else is stripped.
\<close>

theorem listing_author_after_last_anchor:
  assumes "parseLine list line = Some m"
  shows "\<exists>k. LastIndex line ''</a>'' = Some k \<and> Author m = TrimSpace (drop (k + 4) line)"
proof -
  from assms obtain linkStart gt subjectEnd where
    e: "Index (drop (gt + linkStart + 1) line) ''</a>'' = Some subjectEnd"
    by (auto simp: parseLine_def Let_def split: if_splits option.splits)
  then obtain k where k: "LastIndex line ''</a>'' = Some k"
    using occurrence_LastIndex by blast
  have a: "Author m = (if k + 4 < length line then TrimSpace (drop (k + 4) line) else [])"
    using assms k by (auto simp: parseLine_def Let_def split: if_splits option.splits)
  have "Author m = TrimSpace (drop (k + 4) line)"
  proof (cases "k + 4 < length line")
    case True
    with a show ?thesis by simp
  next
    case False
    then have "drop (k + 4) line = []" by simp
    with a False show ?thesis by (simp add: TrimSpace_Nil)
  qed
  with k show ?thesis by blast
qed

theorem listing_author_after_last_anchor_witness:
  "parseLine ''git'' listingRowNext =
     Some \<lparr>ID = ''42'', Subject = ''Fix bug'', Author = ''Alice Next'', Date = ''2026-02-24'',
           List = ''git''\<rparr> \<and>
   LastIndex listingRowNext ''</a>'' = Some 80 \<and>
   TrimSpace (drop (80 + 4) listingRowNext) = ''Alice Next''"
proof -
  have p: "parseLine ''git'' listingRowNext =
     Some \<lparr>ID = ''42'', Subject = ''Fix bug'', Author = ''Alice Next'', Date = ''2026-02-24'',
           List = ''git''\<rparr>"
    by code_simp
  have l: "LastIndex listingRowNext ''</a>'' = Some 80"
    by code_simp
  from listing_author_after_last_anchor [OF p] l p show ?thesis by simp
qed

text \<open>
  C5 as stated fails: for the row that ends in \<^verbatim>\<open>Alice Next\<close> the stub's author is
  \<^verbatim>\<open>Alice Next\<close>, where the claim gives \<^verbatim>\<open>Alice\<close>.
\<close>

theorem pagination_label_stays_in_author:
  "map Author (parseMessageListFromRaw listingRowNext ''git'') = [''Alice Next''] \<and>
   authorBySpec listingRowNext = ''Alice''"
  by code_simp

subsection \<open>The catalog extractor\<close>

lemma walk_is_fold:
  "walk queryGet n st = fold (visit queryGet) (preorder n) st"
  "walk_children queryGet cs st = fold (visit queryGet) (preorder_children cs) st"
  by (induction queryGet n st and queryGet cs st rule: walk_walk_children.induct) simp_all

lemma extractCategory_children_find:
  "extractCategory_children cs =
     (case find isBoldGroup cs of
        None \<Rightarrow> []
      | Some b \<Rightarrow> TrimSpace (concat (map Data (filter (\<lambda>c. Type c = TextNode) (Children b)))))"
  by (induction cs) (auto simp: isBoldGroup_def hasGroupImg_def isGroupImg_def [abs_def])

lemma direct_text_plain:
  "list_all (\<lambda>c. nodeText c = (if Type c = TextNode then Data c else [])) cs \<Longrightarrow>
   concat (map Data (filter (\<lambda>c. Type c = TextNode) cs)) = concat (map nodeText cs)"
  by (induction cs) auto

lemma no_text_before:
  "list_all (\<lambda>c. Type c \<noteq> TextNode) cs \<Longrightarrow> filter (\<lambda>c. Type c = TextNode) cs = []"
  by (induction cs) auto

lemma split_at_marker:
  assumes "list_ex isGroupImg cs"
  shows "\<exists>img. isGroupImg img \<and>
           cs = takeWhile (\<lambda>c. \<not> isGroupImg c) cs @ img # tl (dropWhile (\<lambda>c. \<not> isGroupImg c) cs)"
proof -
  from assms have "dropWhile (\<lambda>c. \<not> isGroupImg c) cs \<noteq> []"
    by (simp add: list_ex_iff dropWhile_eq_Nil_conv)
  then obtain img rest where d: "dropWhile (\<lambda>c. \<not> isGroupImg c) cs = img # rest"
    by (cases "dropWhile (\<lambda>c. \<not> isGroupImg c) cs") auto
  then have "isGroupImg img"
    using hd_dropWhile [of "\<lambda>c. \<not> isGroupImg c" cs] by auto
  moreover have "cs = takeWhile (\<lambda>c. \<not> isGroupImg c) cs @ dropWhile (\<lambda>c. \<not> isGroupImg c) cs"
    by simp
  ultimately show ?thesis using d by auto
qed

lemma bold_text_is_trailing:
  assumes "isBoldGroup b"
    and "list_all (\<lambda>c. Type c \<noteq> TextNode) (takeWhile (\<lambda>c. \<not> isGroupImg c) (Children b))"
    and "list_all (\<lambda>c. nodeText c = (if Type c = TextNode then Data c else [])) (afterMarker b)"
  shows "concat (map Data (filter (\<lambda>c. Type c = TextNode) (Children b))) =
         concat (map nodeText (afterMarker b))"
proof -
  from assms(1) have "list_ex isGroupImg (Children b)"
    by (simp add: isBoldGroup_def)
  then obtain img where img: "isGroupImg img"
    and cs: "Children b = takeWhile (\<lambda>c. \<not> isGroupImg c) (Children b) @ img # afterMarker b"
    unfolding afterMarker_def using split_at_marker by blast
  have "Type img \<noteq> TextNode"
    using img by (simp add: isGroupImg_def)
  then have "filter (\<lambda>c. Type c = TextNode) (Children b) =
             filter (\<lambda>c. Type c = TextNode) (afterMarker b)"
    by (subst cs) (simp add: no_text_before [OF assms(2)])
  then show ?thesis
    by (simp add: direct_text_plain [OF assms(3)])
qed

lemma extractCategory_plain:
  assumes "hasPlainName n"
  shows "extractCategory n = trailingText n"
proof (cases "find isBoldGroup (Children n)")
  case None
  then show ?thesis
    by (simp add: extractCategory_def extractCategory_children_find trailingText_def)
next
  case (Some b)
  then have b: "isBoldGroup b"
    by (auto simp: find_Some_iff)
  from assms Some have
    "list_all (\<lambda>c. Type c \<noteq> TextNode) (takeWhile (\<lambda>c. \<not> isGroupImg c) (Children b))"
    "list_all (\<lambda>c. nodeText c = (if Type c = TextNode then Data c else [])) (afterMarker b)"
    by (simp_all add: hasPlainName_def)
  from bold_text_is_trailing [OF b this] Some show ?thesis
    by (simp add: extractCategory_def extractCategory_children_find trailingText_def)
qed

lemma extractCategory_no_group:
  assumes "\<not> list_ex isBoldGroup (Children n)"
  shows "extractCategory n = [] \<and> trailingText n = []"
proof -
  from assms have "find isBoldGroup (Children n) = None"
    by (simp add: find_None_iff list_ex_iff)
  then show ?thesis
    by (simp add: extractCategory_def extractCategory_children_find trailingText_def)
qed

lemma visit_step:
  assumes "\<not> isGroupHeader n \<or> hasPlainName n"
  shows "visit queryGet n (cur, ls) =
     ((if isNamedHeader n then trailingText n else cur),
      ls @ (if isListLink queryGet n
            then [\<lparr>Name = extractListName queryGet (getAttr n ''href''), Category = cur\<rparr>]
            else []))"
proof (cases "Type n = ElementNode \<and> Data n = ''dt''")
  case False
  then show ?thesis
    by (auto simp: visit_def isNamedHeader_def isGroupHeader_def isListLink_def Let_def)
next
  case True
  have e: "extractCategory n = trailingText n"
  proof (cases "list_ex isBoldGroup (Children n)")
    case True
    with \<open>Type n = ElementNode \<and> Data n = ''dt''\<close> assms have "hasPlainName n"
      by (simp add: isGroupHeader_def)
    then show ?thesis by (rule extractCategory_plain)
  next
    case False
    then show ?thesis using extractCategory_no_group by simp
  qed
  have h: "isNamedHeader n = (trailingText n \<noteq> [])"
    using True extractCategory_no_group [of n]
    by (auto simp: isNamedHeader_def isGroupHeader_def)
  from True have "\<not> isListLink queryGet n"
    by (simp add: isListLink_def)
  with True e h show ?thesis
    by (simp add: visit_def Let_def)
qed

lemma categoryBefore_snoc:
  "categoryBefore header (ns @ [n]) =
     (if header n then trailingText n else categoryBefore header ns)"
  by (simp add: categoryBefore_def)

lemma catalogBySpec_snoc:
  "catalogBySpec header queryGet (ns @ [n]) =
     catalogBySpec header queryGet ns @
     (if isListLink queryGet n
      then [\<lparr>Name = extractListName queryGet (getAttr n ''href''),
             Category = categoryBefore header ns\<rparr>]
      else [])"
proof -
  have old: "map (\<lambda>i. \<lparr>Name = extractListName queryGet (getAttr ((ns @ [n]) ! i) ''href''),
                Category = categoryBefore header (take i (ns @ [n]))\<rparr>)
       (filter (\<lambda>i. isListLink queryGet ((ns @ [n]) ! i)) [0..<length ns]) =
     catalogBySpec header queryGet ns"
    unfolding catalogBySpec_def
    by (intro map_cong filter_cong refl) (auto simp: nth_append)
  show ?thesis
    unfolding catalogBySpec_def [of header queryGet "ns @ [n]"]
    using old by simp
qed

lemma fold_visit:
  "plainHeaders ns \<Longrightarrow>
   fold (visit queryGet) ns ([], []) =
     (categoryBefore isNamedHeader ns, catalogBySpec isNamedHeader queryGet ns)"
proof (induction ns rule: rev_induct)
  case Nil
  then show ?case by (simp add: categoryBefore_def catalogBySpec_def)
next
  case (snoc n ns)
  then have "\<not> isGroupHeader n \<or> hasPlainName n" and "plainHeaders ns"
    by (simp_all add: plainHeaders_def)
  with snoc.IH show ?case
    by (simp add: visit_step categoryBefore_snoc catalogBySpec_snoc)
qed

text \<open>
  C6, as the code has it. In a document whose category headers are plainly written,
  \<^verbatim>\<open>extractMailingLists\<close> yields one record for each list-selection link, in document
  order, and the category of each is the trimmed text after the marker of the nearest
  preceding category header that has a name, empty if no such header precedes the link.
  A header without a name is passed over: the links after it keep the category of the
  header before.
\<close>

theorem catalog_category_is_nearest_named_header:
  assumes "plainHeaders (preorder doc)"
  shows "extractMailingLists queryGet doc = catalogBySpec isNamedHeader queryGet (preorder doc)"
  using fold_visit [OF assms] by (simp add: extractMailingLists_def walk_is_fold)

text \<open>
  On the first page a link stands before every header, a bold \<^verbatim>\<open>dt\<close> without a marker
  is no header, and a name is trimmed; on the second a header without a name stands
  between two links.
\<close>

theorem catalog_category_is_nearest_named_header_witness:
  "plainHeaders (preorder indexPage) \<and>
   extractMailingLists plainQueryGet indexPage =
     [\<lparr>Name = ''early'', Category = []\<rparr>,
      \<lparr>Name = ''git'', Category = ''Development''\<rparr>,
      \<lparr>Name = ''hg'', Category = ''Development''\<rparr>,
      \<lparr>Name = ''linux-kernel'', Category = ''Linux''\<rparr>] \<and>
   plainHeaders (preorder blankHeaderPage) \<and>
   extractMailingLists plainQueryGet blankHeaderPage =
     [\<lparr>Name = ''git'', Category = ''Development''\<rparr>,
      \<lparr>Name = ''orphan'', Category = ''Development''\<rparr>]"
proof -
  have p: "plainHeaders (preorder indexPage)"
    by code_simp
  have c: "catalogBySpec isNamedHeader plainQueryGet (preorder indexPage) =
     [\<lparr>Name = ''early'', Category = []\<rparr>,
      \<lparr>Name = ''git'', Category = ''Development''\<rparr>,
      \<lparr>Name = ''hg'', Category = ''Development''\<rparr>,
      \<lparr>Name = ''linux-kernel'', Category = ''Linux''\<rparr>]"
    by code_simp
  have q: "plainHeaders (preorder blankHeaderPage)"
    by code_simp
  have d: "catalogBySpec isNamedHeader plainQueryGet (preorder blankHeaderPage) =
     [\<lparr>Name = ''git'', Category = ''Development''\<rparr>,
      \<lparr>Name = ''orphan'', Category = ''Development''\<rparr>]"
    by code_simp
  from p q catalog_category_is_nearest_named_header [OF p, of plainQueryGet]
    catalog_category_is_nearest_named_header [OF q, of plainQueryGet]
  show ?thesis
    by (simp only: c d simp_thms)
qed

text \<open>
  C6 as stated fails: the nearest category header before the link \<^verbatim>\<open>orphan\<close> has the
  empty text, which the claim makes the link's category; the extractor passes that
  header over and keeps \<^verbatim>\<open>Development\<close>.
\<close>

theorem blank_header_keeps_earlier_category:
  "isGroupHeader blankHeader \<and> trailingText blankHeader = [] \<and>
   extractMailingLists plainQueryGet blankHeaderPage =
     [\<lparr>Name = ''git'', Category = ''Development''\<rparr>,
      \<lparr>Name = ''orphan'', Category = ''Development''\<rparr>] \<and>
   catalogBySpec isGroupHeader plainQueryGet (preorder blankHeaderPage) =
     [\<lparr>Name = ''git'', Category = ''Development''\<rparr>,
      \<lparr>Name = ''orphan'', Category = []\<rparr>]"
  by code_simp

text \<open>
  Outside the plainly written headers the extractor takes every direct text child of the
  bold element, also the text before the marker, where its comment has the text after
  the image.
\<close>

lemma text_before_marker_is_kept:
  "isGroupHeader leadingTextHeader \<and> \<not> hasPlainName leadingTextHeader \<and>
   trailingText leadingTextHeader = ''B'' \<and> extractCategory leadingTextHeader = ''x  B''"
  by code_simp

end
